theory Spec2Isabelle
  imports Main
begin

section \<open>Catalog records (\<open>itemSchema\<close>, \<open>type Item\<close>)\<close>

text \<open>
  The zod schema of \<open>seed-database.ts\<close> fixes the shape of an item. Strings are
  \<open>string\<close>s and arrays are lists. A \<open>z.number()\<close> is a JavaScript number; the
  code never computes with one, it only renders it inside a template literal, so the
  number type is left as the type parameter \<open>'n\<close> and its rendering
  (\<open>Number.prototype.toString\<close>) is passed in where a summary is built.
\<close>

record manufacturer_address =
  street :: string
  city :: string
  state :: string
  postal_code :: string
  country :: string

record 'n prices =
  full_price :: 'n
  sale_price :: 'n

record 'n user_review =
  review_date :: string
  rating :: 'n
  comment :: string

record 'n Item =
  item_id :: string
  item_name :: string
  item_description :: string
  brand :: string
  manufacturer_address :: manufacturer_address
  prices :: "'n prices"
  categories :: "string list"
  user_reviews :: "'n user_review list"
  notes_field :: string

section \<open>Promises as state passing with errors\<close>

text \<open>
  An \<open>async\<close> function is a computation over the outside world that either
  resolves to a value or rejects with an error. A rejection (a thrown exception) is
  \<open>Inl\<close>, a resolved value is \<open>Inr\<close>.
\<close>

datatype js_error = Err string

type_synonym ('a, 'w) promise = "'w \<Rightarrow> (js_error + 'a) \<times> 'w"

definition resolve :: "'a \<Rightarrow> ('a, 'w) promise" where
  "resolve a = (\<lambda>w. (Inr a, w))"

definition throw :: "js_error \<Rightarrow> ('a, 'w) promise" where
  "throw e = (\<lambda>w. (Inl e, w))"

definition await :: "('a, 'w) promise \<Rightarrow> ('a \<Rightarrow> ('b, 'w) promise) \<Rightarrow> ('b, 'w) promise" where
  "await m f = (\<lambda>w. case m w of (Inl e, w') \<Rightarrow> (Inl e, w') | (Inr a, w') \<Rightarrow> f a w')"

definition try_catch :: "('a, 'w) promise \<Rightarrow> (js_error \<Rightarrow> ('a, 'w) promise) \<Rightarrow> ('a, 'w) promise" where
  "try_catch m h = (\<lambda>w. case m w of (Inl e, w') \<Rightarrow> h e w' | (Inr a, w') \<Rightarrow> (Inr a, w'))"

text \<open>\<open>Promise.all\<close> over an array of promises started in array order.\<close>

fun promise_all :: "('a, 'w) promise list \<Rightarrow> ('a list, 'w) promise" where
  "promise_all [] = resolve []"
| "promise_all (p # ps) = await p (\<lambda>a. await (promise_all ps) (\<lambda>as. resolve (a # as)))"

section \<open>The summary compiler (\<open>createItemSummary\<close>)\<close>

text \<open>\<open>Array.prototype.join\<close> on an array of strings.\<close>

fun join :: "string \<Rightarrow> string list \<Rightarrow> string" where
  "join sep [] = []"
| "join sep [x] = x"
| "join sep (x # y # ys) = x @ sep @ join sep (y # ys)"

definition newline :: string where
  "newline = [CHR 0x0A]"

text \<open>
  Lines 114 to 130. The executor of the promise runs at once, reads nothing but
  \<open>item\<close> and calls \<open>resolve\<close>; the two template literals that span two source lines
  contain the line break and the indentation of their second line.
\<close>

definition createItemSummary :: "('n \<Rightarrow> string) \<Rightarrow> 'n Item \<Rightarrow> (string, 'w) promise" where
  "createItemSummary num item =
     (let manufacturesDetails = ''Made in '' @ country (manufacturer_address item);
          categories' = join '','' (categories item);
          userReviews =
            join '' '' (map (\<lambda>review. ''Rated '' @ num (rating review) @ '' on ''
                                      @ review_date review @ '': '' @ comment review)
                            (user_reviews item));
          basicInfo = item_name item @ '' '' @ item_description item
                      @ '' from the brand '' @ brand item;
          price = ''At full price it costs: $'' @ num (full_price (prices item)) @ '' USD,''
                  @ newline @ ''     Onsale it costs '' @ num (sale_price (prices item))
                  @ '' USD'';
          notes' = notes_field item;
          summary = basicInfo @ '', Manufacturer: '' @ manufacturesDetails @ '','' @ newline
                    @ ''    Categories: '' @ categories' @ '', Reviews: '' @ userReviews
                    @ '', Price: '' @ price @ '', Notes: '' @ notes'
      in resolve summary)"

text \<open>
  Decimal rendering of a whole number, which is what \<open>toString\<close> gives for an
  integer-valued JavaScript number below \<open>10^21\<close> (\<open>Date.now()\<close>, a price of 120).
\<close>

definition digit_char :: "nat \<Rightarrow> char" where
  "digit_char d = ''0123456789'' ! d"

fun nat_to_string :: "nat \<Rightarrow> string" where
  "nat_to_string n =
     (if n < 10 then [digit_char n] else nat_to_string (n div 10) @ [digit_char (n mod 10)])"

definition int_to_string :: "int \<Rightarrow> string" where
  "int_to_string i = (if i < 0 then ''-'' @ nat_to_string (nat (- i)) else nat_to_string (nat i))"

section \<open>The outside world: the MongoDB client, the model and the embeddings\<close>

text \<open>
  The vector search index description of lines 69 to 82.
\<close>

record vector_field =
  field_type :: string
  path :: string
  numdimensions :: nat
  similarity :: string

record search_index =
  index_name :: string
  index_type :: string
  definition_fields :: "vector_field list"

text \<open>
  What \<open>recordsWithSummaries\<close> holds (a LangChain document), and what
  \<open>MongoDBAtlasVectorSearch\<close> stores for it: the text under \<open>textKey\<close>, the vector under
  \<open>embeddingKey\<close> and the fields of the metadata beside them. An item has no field
  called \<open>embedding_text\<close> or \<open>embedding\<close>, so spreading the metadata overwrites
  neither; the item is kept whole in \<open>item_fields\<close>. The vector type is the parameter
  \<open>'v\<close>.
\<close>

record 'n page_document =
  pageContent :: string
  metadata :: "'n Item"

record ('n, 'v) stored_document =
  embedding_text :: string
  embedding :: 'v
  item_fields :: "'n Item"

record ('n, 'v) collection =
  indexes :: "search_index list"
  documents :: "('n, 'v) stored_document list"

text \<open>
  Every call that leaves the process is recorded, with whether it succeeded. The world
  is the collections of \<open>inventory_database\<close> and the calls made so far.
\<close>

datatype ('n, 'v) call =
    Connect
  | Ping
  | ListCollections string
  | CreateCollection string
  | DropIndexes string
  | CreateSearchIndex string search_index
  | DeleteMany string
  | LlmInvoke string
  | EmbedDocuments "string list"
  | InsertMany string "('n, 'v) stored_document list"

type_synonym ('n, 'v) event = "('n, 'v) call \<times> bool"

record ('n, 'v) world =
  collections :: "string \<rightharpoonup> ('n, 'v) collection"
  trace :: "('n, 'v) event list"

text \<open>What \<open>parser.parse\<close> can hand back to the tests of lines 101 to 107.\<close>

datatype 'n parsed = ParsedArray "'n Item list" | ParsedObject "'n Item" | ParsedFalsy

text \<open>
  The environment of a run. \<open>fault\<close> decides, from the calls made so far and the call
  being made, whether the network or the service fails it (any schedule of failures is
  some \<open>fault\<close>, since the history grows with every call). The model's answer to a
  prompt, the parser, its format instructions, the embedding function and the rendering
  of numbers are the remaining parameters.
\<close>

record ('n, 'v) env =
  fault :: "('n, 'v) event list \<Rightarrow> ('n, 'v) call \<Rightarrow> js_error option"
  llm_content :: "string \<Rightarrow> string"
  getFormatInstructions :: string
  parse :: "string \<Rightarrow> js_error + 'n parsed"
  embedQuery :: "string \<Rightarrow> 'v"
  number_toString :: "'n \<Rightarrow> string"

text \<open>
  One external call: it fails when \<open>fault\<close> says so or when the store refuses it, and
  then changes nothing; otherwise it returns a value and the new collections.
\<close>

definition external ::
  "('n, 'v) env \<Rightarrow> ('n, 'v) call
   \<Rightarrow> ((string \<rightharpoonup> ('n, 'v) collection) \<Rightarrow> js_error + 'a \<times> (string \<rightharpoonup> ('n, 'v) collection))
   \<Rightarrow> ('a, ('n, 'v) world) promise" where
  "external e c run =
     (\<lambda>w. case fault e (trace w) c of
             Some err \<Rightarrow> (Inl err, w\<lparr>trace := trace w @ [(c, False)]\<rparr>)
           | None \<Rightarrow>
               (case run (collections w) of
                  Inl err \<Rightarrow> (Inl err, w\<lparr>trace := trace w @ [(c, False)]\<rparr>)
                | Inr (a, cs) \<Rightarrow> (Inr a, w\<lparr>collections := cs, trace := trace w @ [(c, True)]\<rparr>)))"

definition connect :: "('n, 'v) env \<Rightarrow> (unit, ('n, 'v) world) promise" where
  "connect e = external e Connect (\<lambda>cs. Inr ((), cs))"

definition ping :: "('n, 'v) env \<Rightarrow> (unit, ('n, 'v) world) promise" where
  "ping e = external e Ping (\<lambda>cs. Inr ((), cs))"

text \<open>\<open>db.listCollections({name}).toArray()\<close>: the collections of that name.\<close>

definition listCollections :: "('n, 'v) env \<Rightarrow> string \<Rightarrow> (string list, ('n, 'v) world) promise" where
  "listCollections e nm =
     external e (ListCollections nm)
       (\<lambda>cs. Inr ((case cs nm of None \<Rightarrow> [] | Some _ \<Rightarrow> [nm]), cs))"

text \<open>\<open>db.createCollection\<close> refuses a name that exists.\<close>

definition createCollection :: "('n, 'v) env \<Rightarrow> string \<Rightarrow> (unit, ('n, 'v) world) promise" where
  "createCollection e nm =
     external e (CreateCollection nm)
       (\<lambda>cs. case cs nm of
                None \<Rightarrow> Inr ((), cs(nm \<mapsto> \<lparr>indexes = [], documents = []\<rparr>))
              | Some _ \<Rightarrow> Inl (Err ''NamespaceExists''))"

text \<open>
  The corpus store as the specification gives it: \<open>dropIndexes\<close> removes the indexes
  of the collection, index creation adds one under a name not yet taken, \<open>deleteMany({})\<close>
  removes every document, \<open>insertMany\<close> appends documents (creating the collection if it
  is not there).
\<close>

definition dropIndexes :: "('n, 'v) env \<Rightarrow> string \<Rightarrow> (unit, ('n, 'v) world) promise" where
  "dropIndexes e nm =
     external e (DropIndexes nm)
       (\<lambda>cs. case cs nm of
                None \<Rightarrow> Inl (Err ''NamespaceNotFound'')
              | Some c \<Rightarrow> Inr ((), cs(nm \<mapsto> c\<lparr>indexes := []\<rparr>)))"

definition createSearchIndex ::
  "('n, 'v) env \<Rightarrow> string \<Rightarrow> search_index \<Rightarrow> (unit, ('n, 'v) world) promise" where
  "createSearchIndex e nm idx =
     external e (CreateSearchIndex nm idx)
       (\<lambda>cs. case cs nm of
                None \<Rightarrow> Inl (Err ''NamespaceNotFound'')
              | Some c \<Rightarrow>
                  if index_name idx \<in> set (map index_name (indexes c))
                  then Inl (Err ''IndexAlreadyExists'')
                  else Inr ((), cs(nm \<mapsto> c\<lparr>indexes := indexes c @ [idx]\<rparr>)))"

definition deleteMany :: "('n, 'v) env \<Rightarrow> string \<Rightarrow> (unit, ('n, 'v) world) promise" where
  "deleteMany e nm =
     external e (DeleteMany nm)
       (\<lambda>cs. case cs nm of
                None \<Rightarrow> Inr ((), cs)
              | Some c \<Rightarrow> Inr ((), cs(nm \<mapsto> c\<lparr>documents := []\<rparr>)))"

definition insertMany ::
  "('n, 'v) env \<Rightarrow> string \<Rightarrow> ('n, 'v) stored_document list \<Rightarrow> (unit, ('n, 'v) world) promise" where
  "insertMany e nm docs =
     external e (InsertMany nm docs)
       (\<lambda>cs. case cs nm of
                None \<Rightarrow> Inr ((), cs(nm \<mapsto> \<lparr>indexes = [], documents = docs\<rparr>))
              | Some c \<Rightarrow> Inr ((), cs(nm \<mapsto> c\<lparr>documents := documents c @ docs\<rparr>)))"

definition llm_invoke :: "('n, 'v) env \<Rightarrow> string \<Rightarrow> (string, ('n, 'v) world) promise" where
  "llm_invoke e prompt = external e (LlmInvoke prompt) (\<lambda>cs. Inr (llm_content e prompt, cs))"

definition embedDocuments :: "('n, 'v) env \<Rightarrow> string list \<Rightarrow> ('v list, ('n, 'v) world) promise" where
  "embedDocuments e texts = external e (EmbedDocuments texts) (\<lambda>cs. Inr (map (embedQuery e) texts, cs))"

text \<open>
  \<open>MongoDBAtlasVectorSearch.fromDocuments(docs, embeddings, config)\<close> without ids:
  embed the page contents, then insert one stored document per input document.
\<close>

definition fromDocuments ::
  "('n, 'v) env \<Rightarrow> 'n page_document list \<Rightarrow> string \<Rightarrow> (unit, ('n, 'v) world) promise" where
  "fromDocuments e docs nm =
     await (embedDocuments e (map pageContent docs))
       (\<lambda>vectors. insertMany e nm
          (map (\<lambda>(v, d). \<lparr>embedding_text = pageContent d, embedding = v, item_fields = metadata d\<rparr>)
               (zip vectors docs)))"

section \<open>The ingestion functions of \<open>seed-database.ts\<close>\<close>

text \<open>Output on the console is not part of the model.\<close>

definition setupDatabaseAndCollection :: "('n, 'v) env \<Rightarrow> (unit, ('n, 'v) world) promise" where
  "setupDatabaseAndCollection e =
     await (listCollections e ''items'')
       (\<lambda>collections'. if length collections' = 0 then createCollection e ''items''
                        else resolve ())"

definition vectorSearchIdx :: search_index where
  "vectorSearchIdx =
     \<lparr>index_name = ''vector_index'', index_type = ''vectorSearch'',
      definition_fields =
        [\<lparr>field_type = ''vector'', path = ''embedding'', numdimensions = 768,
          similarity = ''cosine''\<rparr>]\<rparr>"

definition createVectorSearchIndex :: "('n, 'v) env \<Rightarrow> (unit, ('n, 'v) world) promise" where
  "createVectorSearchIndex e =
     try_catch
       (await (dropIndexes e ''items'') (\<lambda>_. createSearchIndex e ''items'' vectorSearchIdx))
       (\<lambda>error. resolve ())"

definition prompt :: "('n, 'v) env \<Rightarrow> string" where
  "prompt e =
     ''you are a helpful assistant that generates furniture store item data. generate 10 furniture store items. each record should''
     @ newline
     @ ''  include the following fields: item_id, item_name, item_description, brand, manufacturer_address, prices, categories, user_reviews, notes. ensure variety in the data and realistic values ''
     @ newline @ ''  '' @ getFormatInstructions e"

text \<open>A synchronous result seen as a settled promise.\<close>

definition settled :: "js_error + 'a \<Rightarrow> ('a, 'w) promise" where
  "settled r = (\<lambda>w. (r, w))"

definition generateSyntheticData :: "('n, 'v) env \<Rightarrow> ('n Item list, ('n, 'v) world) promise" where
  "generateSyntheticData e =
     await (llm_invoke e (prompt e))
       (\<lambda>response.
          try_catch
            (await (settled (parse e response))
               (\<lambda>parsed'. case parsed' of
                             ParsedArray items \<Rightarrow> resolve items
                           | ParsedObject item \<Rightarrow> resolve [item]
                           | ParsedFalsy \<Rightarrow> throw (Err ''Parsed data is empty'')))
            (\<lambda>err. resolve []))"

text \<open>The \<open>for ... of\<close> loop with an awaited body: the first rejection leaves the loop.\<close>

fun for_of :: "'a list \<Rightarrow> ('a \<Rightarrow> (unit, 'w) promise) \<Rightarrow> (unit, 'w) promise" where
  "for_of [] body = resolve ()"
| "for_of (x # xs) body = await (body x) (\<lambda>_. for_of xs body)"

definition seedDatabase :: "('n, 'v) env \<Rightarrow> (unit, ('n, 'v) world) promise" where
  "seedDatabase e =
     try_catch
       (await (connect e) (\<lambda>_.
        await (ping e) (\<lambda>_.
        await (setupDatabaseAndCollection e) (\<lambda>_.
        await (createVectorSearchIndex e) (\<lambda>_.
        await (deleteMany e ''items'') (\<lambda>_.
        await (generateSyntheticData e) (\<lambda>syntheticData.
        await (promise_all
                 (map (\<lambda>record. await (createItemSummary (number_toString e) record)
                                  (\<lambda>s. resolve \<lparr>pageContent = s, metadata = record\<rparr>))
                      syntheticData)) (\<lambda>recordsWithSummaries.
        for_of recordsWithSummaries (\<lambda>record. fromDocuments e [record] ''items'')))))))))
       (\<lambda>error. resolve ())"

section \<open>The chat routes of the server\<close>

text \<open>
  The response object of a request: the status code (200 until \<open>status\<close> is called)
  and the JSON body once one has been sent.
\<close>

datatype json_body = ResponseBody string | ErrorBody string

record response =
  statusCode :: nat
  sent :: "json_body option"

definition fresh_response :: response where
  "fresh_response = \<lparr>statusCode = 200, sent = None\<rparr>"

definition status :: "response \<Rightarrow> nat \<Rightarrow> response" where
  "status res code = res\<lparr>statusCode := code\<rparr>"

definition json :: "response \<Rightarrow> json_body \<Rightarrow> response" where
  "json res b = res\<lparr>sent := Some b\<rparr>"

record request =
  params_threadId :: string
  body_message :: string

text \<open>
  \<open>callAgent\<close> lives in \<open>./agent\<close>; the routes only await it, so it is a parameter:
  from a message and a thread id, a promise of the reply. \<open>Date.now()\<close> is the
  parameter \<open>now\<close>. A handler returns the response object as it has left it.
\<close>

definition post_chat ::
  "(string \<Rightarrow> string \<Rightarrow> (string, 'w) promise) \<Rightarrow> nat \<Rightarrow> request \<Rightarrow> response \<Rightarrow> 'w \<Rightarrow> response \<times> 'w" where
  "post_chat callAgent now req res =
     (\<lambda>w. let initialMessage = body_message req;
               threadId = nat_to_string now
           in case callAgent initialMessage threadId w of
                (Inr response', w') \<Rightarrow> (res, w')
              | (Inl error, w') \<Rightarrow> (json (status res 500) (ErrorBody ''Internal server error''), w'))"

definition post_chat_threadId ::
  "(string \<Rightarrow> string \<Rightarrow> (string, 'w) promise) \<Rightarrow> request \<Rightarrow> response \<Rightarrow> 'w \<Rightarrow> response \<times> 'w" where
  "post_chat_threadId callAgent req res =
     (\<lambda>w. let threadId = params_threadId req;
               message = body_message req
           in case callAgent message threadId w of
                (Inr response', w') \<Rightarrow> (json res (ResponseBody response'), w')
              | (Inl error, w') \<Rightarrow> (json (status res 500) (ErrorBody ''Internal server error''), w'))"

section \<open>Notions and examples used in the statements\<close>

text \<open>
  The document that the write of a record stores, and the two calls by which the write
  of a record can fail.
\<close>

definition stored_of :: "('n, 'v) env \<Rightarrow> 'n page_document \<Rightarrow> ('n, 'v) stored_document" where
  "stored_of e d =
     \<lparr>embedding_text = pageContent d, embedding = embedQuery e (pageContent d),
      item_fields = metadata d\<rparr>"

definition failed_write :: "('n, 'v) env \<Rightarrow> 'n page_document \<Rightarrow> ('n, 'v) event list" where
  "failed_write e d =
     [(EmbedDocuments [pageContent d], False),
      (InsertMany ''items'' [stored_of e d], False)]"

text \<open>A write of new documents is an insert into a collection.\<close>

fun is_write :: "('n, 'v) event \<Rightarrow> bool" where
  "is_write (InsertMany nm docs, b) = True"
| "is_write (c, b) = False"

text \<open>The calls of the four stages of a run, told apart by their kind.\<close>

fun is_prelude :: "('n, 'v) event \<Rightarrow> bool" where
  "is_prelude (c, b) =
     (case c of Connect \<Rightarrow> True | Ping \<Rightarrow> True | ListCollections nm \<Rightarrow> True
              | CreateCollection nm \<Rightarrow> True | _ \<Rightarrow> False)"

fun is_loop :: "('n, 'v) event \<Rightarrow> bool" where
  "is_loop (c, b) =
     (case c of EmbedDocuments texts \<Rightarrow> True | InsertMany nm docs \<Rightarrow> True | _ \<Rightarrow> False)"

definition index_step :: "('n, 'v) event list \<Rightarrow> bool" where
  "index_step ix =
     (ix = [(DropIndexes ''items'', False)]
      \<or> ix = [(DropIndexes ''items'', True), (CreateSearchIndex ''items'' vectorSearchIdx, False)]
      \<or> ix = [(DropIndexes ''items'', True), (CreateSearchIndex ''items'' vectorSearchIdx, True)])"

text \<open>
  The shape of the calls of a run: the prelude alone, or the prelude, the index step and
  the \<open>deleteMany\<close>, followed, only if that succeeded, by the call of the model (with
  prompt \<open>pr\<close>) and, only if the model answered, the calls of the write loop.
\<close>

definition run_shape :: "string \<Rightarrow> ('n, 'v) event list \<Rightarrow> bool" where
  "run_shape pr evs =
     (\<exists>p. list_all is_prelude p
        \<and> (evs = p
           \<or> (\<exists>ix b rest. index_step ix
                 \<and> evs = p @ ix @ (DeleteMany ''items'', b) # rest
                 \<and> (rest = []
                    \<or> b \<and> (\<exists>bl tail. rest = (LlmInvoke pr, bl) # tail
                                   \<and> list_all is_loop tail \<and> (bl \<or> tail = []))))))"

text \<open>
  The example record of the specification, with the fields it leaves open filled in, and
  the summary that the compiler gives for it.
\<close>

definition oak_chair :: "int Item" where
  "oak_chair =
     \<lparr>item_id = ''SKU1'', item_name = ''Oak Chair'',
      item_description = ''A solid dining chair'', brand = ''Acme'',
      manufacturer_address =
        \<lparr>street = ''1 Main St'', city = ''Portland'', state = ''OR'',
         postal_code = ''97201'', country = ''USA''\<rparr>,
      prices = \<lparr>full_price = 120, sale_price = 90\<rparr>,
      categories = [''chairs'', ''oak''],
      user_reviews = [\<lparr>review_date = ''2024-01-01'', rating = 5, comment = ''sturdy''\<rparr>],
      notes_field = ''limited edition''\<rparr>"

definition oak_chair_summary :: string where
  "oak_chair_summary =
     ''Oak Chair A solid dining chair from the brand Acme, Manufacturer: Made in USA,''
     @ newline
     @ ''    Categories: chairs,oak, Reviews: Rated 5 on 2024-01-01: sturdy, Price: At full price it costs: $120 USD,''
     @ newline
     @ ''     Onsale it costs 90 USD, Notes: limited edition''"

text \<open>
  An environment in which no call fails and the parser returns the example record, and
  the worlds of a run in it: the empty database, the database after the collection set-up
  and after the index step.
\<close>

definition env_ok :: "(int, nat list) env" where
  "env_ok =
     \<lparr>fault = (\<lambda>t c. None), llm_content = (\<lambda>p. ''{}''), getFormatInstructions = ''as JSON'',
      parse = (\<lambda>s. Inr (ParsedObject oak_chair)), embedQuery = (\<lambda>t. [0, 0, 0]),
      number_toString = int_to_string\<rparr>"

definition world0 :: "(int, nat list) world" where
  "world0 = \<lparr>collections = Map.empty, trace = []\<rparr>"

definition world1 :: "(int, nat list) world" where
  "world1 =
     \<lparr>collections = [''items'' \<mapsto> \<lparr>indexes = [], documents = []\<rparr>],
      trace = [(ListCollections ''items'', True), (CreateCollection ''items'', True)]\<rparr>"

definition world2 :: "(int, nat list) world" where
  "world2 =
     \<lparr>collections = [''items'' \<mapsto> \<lparr>indexes = [vectorSearchIdx], documents = []\<rparr>],
      trace = [(ListCollections ''items'', True), (CreateCollection ''items'', True),
               (DropIndexes ''items'', True),
               (CreateSearchIndex ''items'' vectorSearchIdx, True)]\<rparr>"

text \<open>Three documents, and an environment that refuses the insert of the second.\<close>

definition env_second_write_fails :: "(int, nat list) env" where
  "env_second_write_fails =
     env_ok\<lparr>fault :=
       (\<lambda>t c. case c of
                 InsertMany nm docs \<Rightarrow>
                   if map embedding_text docs = [''second''] then Some (Err ''write refused'')
                   else None
               | _ \<Rightarrow> None)\<rparr>"

definition three_documents :: "int page_document list" where
  "three_documents =
     [\<lparr>pageContent = ''first'', metadata = oak_chair\<rparr>,
      \<lparr>pageContent = ''second'', metadata = oak_chair\<rparr>,
      \<lparr>pageContent = ''third'', metadata = oak_chair\<rparr>]"

text \<open>
  An environment that refuses the creation of a search index, and the stored document of
  the example record.
\<close>

definition env_index_fails :: "(int, nat list) env" where
  "env_index_fails =
     env_ok\<lparr>fault :=
       (\<lambda>t c. case c of
                 CreateSearchIndex nm idx \<Rightarrow> Some (Err ''index build failed'')
               | _ \<Rightarrow> None)\<rparr>"

definition oak_chair_stored :: "(int, nat list) stored_document" where
  "oak_chair_stored =
     \<lparr>embedding_text = oak_chair_summary, embedding = [0, 0, 0], item_fields = oak_chair\<rparr>"

text \<open>Environments in which the model cannot be reached, or the parser refuses its answer.\<close>

definition env_llm_fails :: "(int, nat list) env" where
  "env_llm_fails =
     env_ok\<lparr>fault :=
       (\<lambda>t c. case c of LlmInvoke p \<Rightarrow> Some (Err ''model unavailable'') | _ \<Rightarrow> None)\<rparr>"

definition env_parse_fails :: "(int, nat list) env" where
  "env_parse_fails = env_ok\<lparr>parse := (\<lambda>s. Inl (Err ''not JSON''))\<rparr>"

text \<open>\<open>String.prototype.startsWith\<close> and \<open>String.prototype.includes\<close>.\<close>

definition starts_with :: "string \<Rightarrow> string \<Rightarrow> bool" where
  "starts_with s p = (take (length p) s = p)"

fun includes_str :: "string \<Rightarrow> string \<Rightarrow> bool" where
  "includes_str [] p = (p = [])"
| "includes_str (c # cs) p = (starts_with (c # cs) p \<or> includes_str cs p)"

text \<open>
  What is left of a text after the first occurrence of a piece, and whether the pieces
  of a list occur in a text one after the other, in the order of the list.
\<close>

fun after_first :: "string \<Rightarrow> string \<Rightarrow> string option" where
  "after_first p [] = (if p = [] then Some [] else None)"
| "after_first p (c # cs) =
     (if starts_with (c # cs) p then Some (drop (length p) (c # cs)) else after_first p cs)"

fun in_order :: "string list \<Rightarrow> string \<Rightarrow> bool" where
  "in_order [] s = True"
| "in_order (p # ps) s =
     (case after_first p s of None \<Rightarrow> False | Some rest \<Rightarrow> in_order ps rest)"

text \<open>
  The derived sentences that the specification of the summary compiler lists, each as
  the code renders it.
\<close>

definition provenance :: "'n Item \<Rightarrow> string" where
  "provenance item = ''Made in '' @ country (manufacturer_address item)"

definition joined_categories :: "'n Item \<Rightarrow> string" where
  "joined_categories item = join '','' (categories item)"

definition rendered_review :: "('n \<Rightarrow> string) \<Rightarrow> 'n user_review \<Rightarrow> string" where
  "rendered_review num review =
     ''Rated '' @ num (rating review) @ '' on '' @ review_date review @ '': '' @ comment review"

definition rendered_reviews :: "('n \<Rightarrow> string) \<Rightarrow> 'n Item \<Rightarrow> string" where
  "rendered_reviews num item = join '' '' (map (rendered_review num) (user_reviews item))"

definition core_description :: "'n Item \<Rightarrow> string" where
  "core_description item =
     item_name item @ '' '' @ item_description item @ '' from the brand '' @ brand item"

definition price_pair :: "('n \<Rightarrow> string) \<Rightarrow> 'n Item \<Rightarrow> string" where
  "price_pair num item =
     ''At full price it costs: $'' @ num (full_price (prices item)) @ '' USD,'' @ newline
     @ ''     Onsale it costs '' @ num (sale_price (prices item)) @ '' USD''"

text \<open>The field order of the specification, and the field order of the code.\<close>

definition spec_field_order :: "('n \<Rightarrow> string) \<Rightarrow> 'n Item \<Rightarrow> string list" where
  "spec_field_order num item =
     [provenance item, joined_categories item, rendered_reviews num item,
      core_description item, price_pair num item, notes_field item]"

definition code_field_order :: "('n \<Rightarrow> string) \<Rightarrow> 'n Item \<Rightarrow> string list" where
  "code_field_order num item =
     [core_description item, provenance item, joined_categories item,
      rendered_reviews num item, price_pair num item, notes_field item]"

text \<open>A reply of the agent and two requests, for the chat routes.\<close>

definition agent_replies :: "string \<Rightarrow> string \<Rightarrow> (string, unit) promise" where
  "agent_replies message threadId = resolve ''Try the Oak Chair''"

definition agent_fails :: "string \<Rightarrow> string \<Rightarrow> (string, unit) promise" where
  "agent_fails message threadId = throw (Err ''model unavailable'')"

definition chat_request :: request where
  "chat_request = \<lparr>params_threadId = '''', body_message = ''recommend a chair''\<rparr>"

definition thread_request :: request where
  "thread_request = \<lparr>params_threadId = ''T1'', body_message = ''recommend a chair''\<rparr>"

text \<open>The two calls of an index recreation that went through.\<close>

definition recreation_calls :: "('n, 'v) event list" where
  "recreation_calls =
     [(DropIndexes ''items'', True), (CreateSearchIndex ''items'' vectorSearchIdx, True)]"

text \<open>
  What a run writes when the model answers: the text of a summary, the records that
  \<open>generateSyntheticData\<close> makes of the parser's result, the documents built from them,
  and the calls of the loop that writes a list of documents without a failure.
\<close>

definition summary_text :: "('n \<Rightarrow> string) \<Rightarrow> 'n Item \<Rightarrow> string" where
  "summary_text num item =
     (case fst (createItemSummary num item ()) of Inr s \<Rightarrow> s | Inl err \<Rightarrow> [])"

definition generated_records :: "('n, 'v) env \<Rightarrow> 'n Item list" where
  "generated_records e =
     (case parse e (llm_content e (prompt e)) of
        Inl err \<Rightarrow> []
      | Inr (ParsedArray items) \<Rightarrow> items
      | Inr (ParsedObject item) \<Rightarrow> [item]
      | Inr ParsedFalsy \<Rightarrow> [])"

definition page_documents :: "('n, 'v) env \<Rightarrow> 'n page_document list" where
  "page_documents e =
     map (\<lambda>record. \<lparr>pageContent = summary_text (number_toString e) record, metadata = record\<rparr>)
         (generated_records e)"

definition write_calls :: "('n, 'v) env \<Rightarrow> 'n page_document list \<Rightarrow> ('n, 'v) event list" where
  "write_calls e docs =
     concat (map (\<lambda>d. [(EmbedDocuments [pageContent d], True),
                        (InsertMany ''items'' [stored_of e d], True)]) docs)"

text \<open>An environment that fails every creation of a search index and no other call.\<close>

definition only_index_creation_fails :: "('n, 'v) env \<Rightarrow> bool" where
  "only_index_creation_fails e =
     (\<forall>t c. (fault e t c = None) = (\<forall>nm idx. c \<noteq> CreateSearchIndex nm idx))"

text \<open>
  An index that an earlier set-up left on the collection, a database that holds it, and
  an environment that refuses to drop indexes.
\<close>

definition old_index :: search_index where
  "old_index =
     \<lparr>index_name = ''vector_index'', index_type = ''vectorSearch'',
      definition_fields =
        [\<lparr>field_type = ''vector'', path = ''embedding'', numdimensions = 3,
          similarity = ''euclidean''\<rparr>]\<rparr>"

definition world_old_index :: "(int, nat list) world" where
  "world_old_index =
     \<lparr>collections = [''items'' \<mapsto> \<lparr>indexes = [old_index], documents = []\<rparr>], trace = []\<rparr>"

definition env_drop_fails :: "(int, nat list) env" where
  "env_drop_fails =
     env_ok\<lparr>fault :=
       (\<lambda>t c. case c of DropIndexes nm \<Rightarrow> Some (Err ''drop refused'') | _ \<Rightarrow> None)\<rparr>"

section \<open>Verification\<close>

text \<open>An external call adds exactly one event, which tells whether it succeeded.\<close>

lemma external_failed:
  "external e c run w = (Inl err, w') \<Longrightarrow>
     w' = w\<lparr>trace := trace w @ [(c, False)]\<rparr>"
  by (auto simp: external_def split: option.splits sum.splits prod.splits)

lemma external_succeeded:
  "external e c run w = (Inr a, w') \<Longrightarrow>
     \<exists>cs. run (collections w) = Inr (a, cs)
          \<and> w' = w\<lparr>collections := cs, trace := trace w @ [(c, True)]\<rparr>"
  by (auto simp: external_def split: option.splits sum.splits prod.splits)

lemma external_failed_fields:
  "external e c run w = (Inl err, w') \<Longrightarrow>
     collections w' = collections w \<and> trace w' = trace w @ [(c, False)]"
  by (drule external_failed) simp

lemma external_succeeded_fields:
  "external e c run w = (Inr a, w') \<Longrightarrow>
     run (collections w) = Inr (a, collections w') \<and> trace w' = trace w @ [(c, True)]"
  by (drule external_succeeded) auto

lemma listCollections_result:
  assumes "listCollections e nm w = (r, w')"
  shows "collections w' = collections w"
    and "\<exists>b. trace w' = trace w @ [(ListCollections nm, b)]"
    and "r = Inr cols \<Longrightarrow> (cols = []) = (collections w nm = None)"
proof -
  show "collections w' = collections w"
  proof (cases r)
    case (Inl err)
    with assms show ?thesis by (auto simp: listCollections_def dest!: external_failed_fields)
  next
    case (Inr a)
    with assms show ?thesis by (auto simp: listCollections_def dest!: external_succeeded_fields)
  qed
  show "\<exists>b. trace w' = trace w @ [(ListCollections nm, b)]"
  proof (cases r)
    case (Inl err)
    with assms show ?thesis by (auto simp: listCollections_def dest!: external_failed_fields)
  next
    case (Inr a)
    with assms show ?thesis by (auto simp: listCollections_def dest!: external_succeeded_fields)
  qed
  show "r = Inr cols \<Longrightarrow> (cols = []) = (collections w nm = None)"
    using assms by (auto simp: listCollections_def dest!: external_succeeded split: option.splits)
qed

lemma createCollection_succeeded:
  assumes "createCollection e nm w = (Inr u, w')"
  shows "collections w nm = None"
    and "collections w' = (collections w)(nm \<mapsto> \<lparr>indexes = [], documents = []\<rparr>)"
  using assms
  by (auto simp: createCollection_def dest!: external_succeeded split: option.splits)

text \<open>
  C10: \<open>setupDatabaseAndCollection\<close> is idempotent. After a run that returned normally
  the collection \<open>items\<close> exists; it was created only if it was missing (a run on a
  database that has it leaves the collections as they are, and the set of names only
  gains \<open>items\<close>). A second run makes the one call that lists the collections, creates
  nothing and leaves the collections unchanged, whatever that call answers.
\<close>

theorem setupDatabaseAndCollection_idempotent:
  assumes first: "setupDatabaseAndCollection e w = (Inr (), w1)"
      and second: "setupDatabaseAndCollection e w1 = (r, w2)"
  shows "collections w1 ''items'' \<noteq> None
       \<and> (collections w ''items'' \<noteq> None \<longrightarrow> collections w1 = collections w)
       \<and> dom (collections w1) = insert ''items'' (dom (collections w))
       \<and> collections w2 = collections w1
       \<and> (\<exists>b. trace w2 = trace w1 @ [(ListCollections ''items'', b)])"
proof -
  obtain r1 wa where l1: "listCollections e ''items'' w = (r1, wa)"
    by (cases "listCollections e ''items'' w")
  from first l1 obtain cols where r1: "r1 = Inr cols"
    by (cases r1) (auto simp: setupDatabaseAndCollection_def await_def)
  note f1 = listCollections_result [OF l1]
  have exists1: "collections w1 ''items'' \<noteq> None"
   and keep1: "collections w ''items'' \<noteq> None \<longrightarrow> collections w1 = collections w"
   and dom1: "dom (collections w1) = insert ''items'' (dom (collections w))"
  proof -
    show "collections w1 ''items'' \<noteq> None"
    proof (cases "cols = []")
      case True
      with first l1 r1 have "createCollection e ''items'' wa = (Inr (), w1)"
        by (simp add: setupDatabaseAndCollection_def await_def)
      from createCollection_succeeded(2) [OF this] show ?thesis by simp
    next
      case False
      with first l1 r1 have "w1 = wa"
        by (simp add: setupDatabaseAndCollection_def await_def resolve_def)
      with False f1(1) f1(3) [OF r1] show ?thesis by simp
    qed
    show "collections w ''items'' \<noteq> None \<longrightarrow> collections w1 = collections w"
    proof
      assume "collections w ''items'' \<noteq> None"
      with f1(3) [OF r1] have "cols \<noteq> []" by simp
      with first l1 r1 have "w1 = wa"
        by (simp add: setupDatabaseAndCollection_def await_def resolve_def)
      with f1(1) show "collections w1 = collections w" by simp
    qed
    show "dom (collections w1) = insert ''items'' (dom (collections w))"
    proof (cases "cols = []")
      case True
      with first l1 r1 have "createCollection e ''items'' wa = (Inr (), w1)"
        by (simp add: setupDatabaseAndCollection_def await_def)
      from createCollection_succeeded(2) [OF this] f1(1) show ?thesis by simp
    next
      case False
      with first l1 r1 have "w1 = wa"
        by (simp add: setupDatabaseAndCollection_def await_def resolve_def)
      with False f1(1) f1(3) [OF r1] show ?thesis by auto
    qed
  qed
  obtain r2 wb where l2: "listCollections e ''items'' w1 = (r2, wb)"
    by (cases "listCollections e ''items'' w1")
  note f2 = listCollections_result [OF l2]
  have "w2 = wb"
  proof (cases r2)
    case (Inl err)
    with second l2 show ?thesis by (simp add: setupDatabaseAndCollection_def await_def)
  next
    case (Inr cols2)
    with f2(3) [OF Inr] exists1 have "cols2 \<noteq> []" by simp
    with second l2 Inr show ?thesis
      by (simp add: setupDatabaseAndCollection_def await_def resolve_def)
  qed
  with f2 exists1 keep1 dom1 show ?thesis by simp
qed

lemma dropIndexes_failed:
  "dropIndexes e nm w = (Inl err, w') \<Longrightarrow>
     collections w' = collections w \<and> trace w' = trace w @ [(DropIndexes nm, False)]"
  by (auto simp: dropIndexes_def dest!: external_failed_fields)

lemma dropIndexes_succeeded:
  "dropIndexes e nm w = (Inr u, w') \<Longrightarrow>
     \<exists>c. collections w nm = Some c
        \<and> collections w' = (collections w)(nm \<mapsto> c\<lparr>indexes := []\<rparr>)
        \<and> trace w' = trace w @ [(DropIndexes nm, True)]"
  by (auto simp: dropIndexes_def dest!: external_succeeded_fields split: option.splits)

lemma createSearchIndex_failed:
  "createSearchIndex e nm idx w = (Inl err, w') \<Longrightarrow>
     collections w' = collections w \<and> trace w' = trace w @ [(CreateSearchIndex nm idx, False)]"
  by (auto simp: createSearchIndex_def dest!: external_failed_fields)

lemma createSearchIndex_succeeded:
  "createSearchIndex e nm idx w = (Inr u, w') \<Longrightarrow>
     \<exists>c. collections w nm = Some c
        \<and> collections w' = (collections w)(nm \<mapsto> c\<lparr>indexes := indexes c @ [idx]\<rparr>)
        \<and> trace w' = trace w @ [(CreateSearchIndex nm idx, True)]"
  by (auto simp: createSearchIndex_def dest!: external_succeeded_fields
           split: option.splits if_splits)

text \<open>The three ways a run of \<open>createVectorSearchIndex\<close> can go; it never rejects.\<close>

lemma createVectorSearchIndex_cases:
  assumes run: "createVectorSearchIndex e w = (r, w')"
  shows "r = Inr ()
       \<and> (collections w' = collections w
            \<and> trace w' = trace w @ [(DropIndexes ''items'', False)]
          \<or> (\<exists>c. collections w ''items'' = Some c
                \<and> collections w' = (collections w)(''items'' \<mapsto> c\<lparr>indexes := []\<rparr>)
                \<and> trace w' = trace w @ [(DropIndexes ''items'', True),
                                         (CreateSearchIndex ''items'' vectorSearchIdx, False)])
          \<or> (\<exists>c. collections w ''items'' = Some c
                \<and> collections w' = (collections w)(''items'' \<mapsto> c\<lparr>indexes := [vectorSearchIdx]\<rparr>)
                \<and> trace w' = trace w @ [(DropIndexes ''items'', True),
                                         (CreateSearchIndex ''items'' vectorSearchIdx, True)]))"
proof -
  obtain rd wd where d: "dropIndexes e ''items'' w = (rd, wd)"
    by (cases "dropIndexes e ''items'' w")
  show ?thesis
  proof (cases rd)
    case (Inl err)
    with run d have "r = Inr ()" "w' = wd"
      by (simp_all add: createVectorSearchIndex_def try_catch_def await_def resolve_def)
    with dropIndexes_failed [OF d [unfolded Inl]] show ?thesis by simp
  next
    case (Inr u)
    from dropIndexes_succeeded [OF d [unfolded Inr]] obtain c where
      c: "collections w ''items'' = Some c"
         "collections wd = (collections w)(''items'' \<mapsto> c\<lparr>indexes := []\<rparr>)"
         "trace wd = trace w @ [(DropIndexes ''items'', True)]"
      by blast
    obtain rc wc where cr: "createSearchIndex e ''items'' vectorSearchIdx wd = (rc, wc)"
      by (cases "createSearchIndex e ''items'' vectorSearchIdx wd")
    show ?thesis
    proof (cases rc)
      case (Inl err)
      with run d Inr cr have "r = Inr ()" "w' = wc"
        by (simp_all add: createVectorSearchIndex_def try_catch_def await_def resolve_def)
      with createSearchIndex_failed [OF cr [unfolded Inl]] c show ?thesis by simp
    next
      case (Inr u')
      with run d \<open>rd = Inr u\<close> cr have "r = Inr ()" "w' = wc"
        by (simp_all add: createVectorSearchIndex_def try_catch_def await_def resolve_def)
      with createSearchIndex_succeeded [OF cr [unfolded Inr]] c show ?thesis by auto
    qed
  qed
qed

lemma fromDocuments_succeeded:
  assumes "fromDocuments e [d] ''items'' w = (Inr u, w')" and "collections w ''items'' = Some c"
  shows "collections w' =
           (collections w)(''items'' \<mapsto> c\<lparr>documents := documents c @ [stored_of e d]\<rparr>)"
  using assms
  by (auto simp: fromDocuments_def await_def embedDocuments_def insertMany_def stored_of_def
           split: sum.splits prod.splits dest!: external_succeeded_fields)

lemma fromDocuments_failed:
  assumes "fromDocuments e [d] ''items'' w = (Inl err, w')"
  shows "collections w' = collections w \<and> last (trace w') \<in> set (failed_write e d)"
  using assms
  by (auto simp: fromDocuments_def await_def embedDocuments_def insertMany_def stored_of_def
                 failed_write_def
           split: sum.splits prod.splits
           dest!: external_succeeded_fields external_failed_fields)

text \<open>
  C8: the writes of the loop of lines 155 to 172 are per record. Whatever happens, the
  collection ends with the documents it had followed by the stored documents of the first
  \<open>k\<close> records, in order and unchanged; the loop returns normally exactly when \<open>k\<close> is
  the number of records; otherwise record \<open>k + 1\<close> is the one whose embedding or insert
  failed, and it is the last call made.
\<close>

theorem earlier_writes_survive_failure:
  assumes "for_of recs (\<lambda>record. fromDocuments e [record] ''items'') w = (res, w')"
      and "collections w ''items'' = Some c"
  shows "\<exists>k\<le>length recs.
           collections w' =
             (collections w)(''items'' \<mapsto> c\<lparr>documents := documents c @ map (stored_of e) (take k recs)\<rparr>)
         \<and> (res = Inr ()) = (k = length recs)
         \<and> (k < length recs \<longrightarrow> last (trace w') \<in> set (failed_write e (recs ! k)))"
  using assms
proof (induction recs arbitrary: w c)
  case Nil
  then have "w' = w" "res = Inr ()" by (simp_all add: resolve_def)
  with Nil.prems(2) show ?case by (simp add: map_upd_triv)
next
  case (Cons d ds)
  obtain r1 w1 where step: "fromDocuments e [d] ''items'' w = (r1, w1)"
    by (cases "fromDocuments e [d] ''items'' w")
  show ?case
  proof (cases r1)
    case (Inl err)
    with Cons.prems(1) step have "res = Inl err" "w' = w1"
      by (simp_all add: await_def)
    with fromDocuments_failed [OF step [unfolded Inl]] Cons.prems(2)
    have "collections w' =
            (collections w)(''items'' \<mapsto> c\<lparr>documents := documents c @ map (stored_of e) (take 0 (d # ds))\<rparr>)
          \<and> (res = Inr ()) = (0 = length (d # ds))
          \<and> (0 < length (d # ds) \<longrightarrow> last (trace w') \<in> set (failed_write e ((d # ds) ! 0)))"
      by (simp add: map_upd_triv)
    then show ?thesis by blast
  next
    case (Inr u)
    with Cons.prems(1) step
    have rest: "for_of ds (\<lambda>record. fromDocuments e [record] ''items'') w1 = (res, w')"
      by (simp add: await_def)
    let ?c1 = "c\<lparr>documents := documents c @ [stored_of e d]\<rparr>"
    from fromDocuments_succeeded [OF step [unfolded Inr] Cons.prems(2)]
    have w1: "collections w1 = (collections w)(''items'' \<mapsto> ?c1)" .
    then have c1: "collections w1 ''items'' = Some ?c1" by simp
    from Cons.IH [OF rest c1] obtain k where
      k: "k \<le> length ds"
         "collections w' =
            (collections w1)(''items'' \<mapsto> ?c1\<lparr>documents := documents ?c1 @ map (stored_of e) (take k ds)\<rparr>)"
         "(res = Inr ()) = (k = length ds)"
         "k < length ds \<longrightarrow> last (trace w') \<in> set (failed_write e (ds ! k))"
      by blast
    from k w1
    have "Suc k \<le> length (d # ds)
          \<and> collections w' =
              (collections w)(''items'' \<mapsto>
                 c\<lparr>documents := documents c @ map (stored_of e) (take (Suc k) (d # ds))\<rparr>)
          \<and> (res = Inr ()) = (Suc k = length (d # ds))
          \<and> (Suc k < length (d # ds) \<longrightarrow> last (trace w') \<in> set (failed_write e ((d # ds) ! Suc k)))"
      by simp
    then show ?thesis by blast
  qed
qed

lemma await_cases:
  assumes "await m f w = (r, w')"
  obtains (rejected) err where "m w = (Inl err, w')" "r = Inl err"
        | (resolved) a w1 where "m w = (Inr a, w1)" "f a w1 = (r, w')"
  using assms by (auto simp: await_def split: prod.splits sum.splits)

lemma external_trace:
  assumes "external e c run w = (r, w')"
  shows "trace w' = trace w @ [(c, isl r = False)]"
proof (cases r)
  case (Inl err)
  with assms external_failed_fields [of e c run w err w'] show ?thesis by simp
next
  case (Inr a)
  with assms external_succeeded_fields [of e c run w a w'] show ?thesis by simp
qed

lemma connect_prelude:
  "connect e w = (r, w') \<Longrightarrow> \<exists>evs. trace w' = trace w @ evs \<and> list_all is_prelude evs"
  by (auto simp: connect_def dest!: external_trace)

lemma ping_prelude:
  "ping e w = (r, w') \<Longrightarrow> \<exists>evs. trace w' = trace w @ evs \<and> list_all is_prelude evs"
  by (auto simp: ping_def dest!: external_trace)

lemma setup_prelude:
  assumes "setupDatabaseAndCollection e w = (r, w')"
  shows "\<exists>evs. trace w' = trace w @ evs \<and> list_all is_prelude evs"
  using assms unfolding setupDatabaseAndCollection_def
proof (cases rule: await_cases)
  case (rejected err)
  then show ?thesis by (auto simp: listCollections_def dest!: external_trace)
next
  case (resolved cols w1)
  from resolved(1) have t1: "trace w1 = trace w @ [(ListCollections ''items'', True)]"
    by (auto simp: listCollections_def dest!: external_trace)
  show ?thesis
  proof (cases "length cols = 0")
    case True
    with resolved(2) have "trace w' = trace w1 @ [(CreateCollection ''items'', isl r = False)]"
      by (auto simp: createCollection_def dest!: external_trace)
    with t1 show ?thesis by simp
  next
    case False
    with resolved(2) have "w' = w1" by (simp add: resolve_def)
    with t1 show ?thesis by simp
  qed
qed

lemma createVectorSearchIndex_step:
  assumes "createVectorSearchIndex e w = (r, w')"
  shows "r = Inr () \<and> (\<exists>ix. trace w' = trace w @ ix \<and> index_step ix)"
  using createVectorSearchIndex_cases [OF assms] by (auto simp: index_step_def)

lemma deleteMany_trace:
  "deleteMany e nm w = (r, w') \<Longrightarrow> trace w' = trace w @ [(DeleteMany nm, isl r = False)]"
  by (auto simp: deleteMany_def dest!: external_trace)

lemma generateSyntheticData_trace:
  assumes "generateSyntheticData e w = (r, w')"
  shows "trace w' = trace w @ [(LlmInvoke (prompt e), isl r = False)]"
  using assms unfolding generateSyntheticData_def
proof (cases rule: await_cases)
  case (rejected err)
  then show ?thesis by (auto simp: llm_invoke_def dest!: external_trace)
next
  case (resolved response w1)
  from resolved(1) have t1: "trace w1 = trace w @ [(LlmInvoke (prompt e), True)]"
    by (auto simp: llm_invoke_def dest!: external_trace)
  from resolved(2) have "w' = w1 \<and> isl r = False"
    by (auto simp: try_catch_def await_def settled_def resolve_def throw_def
             split: sum.splits parsed.splits prod.splits)
  with t1 show ?thesis by simp
qed

lemma summary_step_silent:
  "await (createItemSummary num record) (\<lambda>s. resolve \<lparr>pageContent = s, metadata = record\<rparr>) w
     = (r, w') \<Longrightarrow> w' = w \<and> (\<exists>d. r = Inr d)"
  by (auto simp: await_def createItemSummary_def resolve_def Let_def)

lemma summaries_silent:
  "promise_all
     (map (\<lambda>record. await (createItemSummary num record)
                       (\<lambda>s. resolve \<lparr>pageContent = s, metadata = record\<rparr>)) xs) w = (r, w')
   \<Longrightarrow> w' = w"
proof (induction xs arbitrary: r w')
  case Nil
  then show ?case by (simp add: resolve_def)
next
  case (Cons x xs)
  let ?rest = "promise_all
     (map (\<lambda>record. await (createItemSummary num record)
                       (\<lambda>s. resolve \<lparr>pageContent = s, metadata = record\<rparr>)) xs)"
  from Cons.prems
  have "await (await (createItemSummary num x) (\<lambda>s. resolve \<lparr>pageContent = s, metadata = x\<rparr>))
          (\<lambda>a. await ?rest (\<lambda>as. resolve (a # as))) w = (r, w')"
    by simp
  then show ?case
  proof (cases rule: await_cases)
    case (rejected err)
    then show ?thesis by (auto dest: summary_step_silent)
  next
    case (resolved a w1)
    from summary_step_silent [OF resolved(1)] have w1: "w1 = w" by simp
    from resolved(2) show ?thesis
    proof (cases rule: await_cases)
      case (rejected err)
      from Cons.IH [OF rejected(1) [unfolded w1]] show ?thesis .
    next
      case (resolved as w2)
      from Cons.IH [OF resolved(1) [unfolded w1]] resolved(2) show ?thesis
        by (simp add: resolve_def)
    qed
  qed
qed

lemma fromDocuments_trace:
  assumes "fromDocuments e docs nm w = (r, w')"
  shows "\<exists>evs. trace w' = trace w @ evs \<and> list_all is_loop evs"
  using assms unfolding fromDocuments_def
proof (cases rule: await_cases)
  case (rejected err)
  then show ?thesis by (auto simp: embedDocuments_def dest!: external_trace)
next
  case (resolved vs w1)
  then show ?thesis
    by (auto simp: embedDocuments_def insertMany_def dest!: external_trace)
qed

lemma for_of_trace:
  "for_of recs (\<lambda>record. fromDocuments e [record] nm) w = (r, w')
   \<Longrightarrow> \<exists>evs. trace w' = trace w @ evs \<and> list_all is_loop evs"
proof (induction recs arbitrary: w)
  case Nil
  then show ?case by (simp add: resolve_def)
next
  case (Cons d ds)
  from Cons.prems
  have "await (fromDocuments e [d] nm) (\<lambda>_. for_of ds (\<lambda>record. fromDocuments e [record] nm)) w
          = (r, w')"
    by simp
  then show ?case
  proof (cases rule: await_cases)
    case (rejected err)
    then show ?thesis by (auto dest: fromDocuments_trace)
  next
    case (resolved u w1)
    from fromDocuments_trace [OF resolved(1)] obtain evs1 where
      "trace w1 = trace w @ evs1" "list_all is_loop evs1" by blast
    moreover from Cons.IH [OF resolved(2)] obtain evs2 where
      "trace w' = trace w1 @ evs2" "list_all is_loop evs2" by blast
    ultimately have "trace w' = trace w @ (evs1 @ evs2) \<and> list_all is_loop (evs1 @ evs2)"
      by simp
    then show ?thesis by blast
  qed
qed

lemma try_catch_resolve:
  "try_catch m (\<lambda>error. resolve ()) w = (r, w') \<Longrightarrow> r = Inr () \<and> (\<exists>r0. m w = (r0, w'))"
  by (auto simp: try_catch_def resolve_def split: prod.splits sum.splits)

lemma run_shape_prelude: "list_all is_prelude p \<Longrightarrow> run_shape pr p"
  unfolding run_shape_def by (rule exI [of _ p]) simp

lemma run_shape_cleared:
  assumes "list_all is_prelude p" and "index_step ix"
      and "rest = [] \<or> b \<and> (\<exists>bl tail. rest = (LlmInvoke pr, bl) # tail \<and> list_all is_loop tail
                                         \<and> (bl \<or> tail = []))"
  shows "run_shape pr (p @ ix @ (DeleteMany ''items'', b) # rest)"
  unfolding run_shape_def
  apply (rule exI [of _ p])
  apply (rule conjI)
   apply (rule assms(1))
  apply (rule disjI2)
  apply (rule exI [of _ ix])
  apply (rule exI [of _ b])
  apply (rule exI [of _ rest])
  apply (simp add: assms(2))
  apply (rule assms(3))
  done

text \<open>
  Every run of \<open>seedDatabase\<close> returns normally, and the calls it makes have the shape
  above.
\<close>

lemma seedDatabase_structure:
  assumes run: "seedDatabase e w = (r, w')"
  shows "r = Inr () \<and> (\<exists>evs. trace w' = trace w @ evs \<and> run_shape (prompt e) evs)"
proof -
  from try_catch_resolve [OF run [unfolded seedDatabase_def]] obtain r0 where
    r: "r = Inr ()" and
    body: "await (connect e) (\<lambda>_.
        await (ping e) (\<lambda>_.
        await (setupDatabaseAndCollection e) (\<lambda>_.
        await (createVectorSearchIndex e) (\<lambda>_.
        await (deleteMany e ''items'') (\<lambda>_.
        await (generateSyntheticData e) (\<lambda>syntheticData.
        await (promise_all
                 (map (\<lambda>record. await (createItemSummary (number_toString e) record)
                                  (\<lambda>s. resolve \<lparr>pageContent = s, metadata = record\<rparr>))
                      syntheticData)) (\<lambda>recordsWithSummaries.
        for_of recordsWithSummaries (\<lambda>record. fromDocuments e [record] ''items'')))))))) w
      = (r0, w')"
    by blast
  have stop: "\<exists>evs. trace w' = trace w @ evs \<and> run_shape (prompt e) evs"
    if "trace w' = trace w @ p" "list_all is_prelude p" for p
    using that(1) run_shape_prelude [OF that(2)] by (intro exI [of _ p] conjI)
  have "\<exists>evs. trace w' = trace w @ evs \<and> run_shape (prompt e) evs"
    using body
  proof (cases rule: await_cases)
    case (rejected err)
    from connect_prelude [OF rejected(1)] obtain e1 where
      "trace w' = trace w @ e1" "list_all is_prelude e1" by blast
    then show ?thesis by (rule stop)
  next
    case c1: (resolved u1 w1)
    from connect_prelude [OF c1(1)] obtain e1 where
      e1: "trace w1 = trace w @ e1" "list_all is_prelude e1" by blast
    from c1(2) show ?thesis
    proof (cases rule: await_cases)
      case (rejected err)
      from ping_prelude [OF rejected(1)] obtain e2 where
        "trace w' = trace w1 @ e2" "list_all is_prelude e2" by blast
      with e1 have "trace w' = trace w @ (e1 @ e2)" "list_all is_prelude (e1 @ e2)"
        by simp_all
      then show ?thesis by (rule stop)
    next
      case c2: (resolved u2 w2)
      from ping_prelude [OF c2(1)] obtain e2 where
        "trace w2 = trace w1 @ e2" "list_all is_prelude e2" by blast
      with e1 have e2: "trace w2 = trace w @ (e1 @ e2)" "list_all is_prelude (e1 @ e2)"
        by simp_all
      from c2(2) show ?thesis
      proof (cases rule: await_cases)
        case (rejected err)
        from setup_prelude [OF rejected(1)] obtain e3 where
          "trace w' = trace w2 @ e3" "list_all is_prelude e3" by blast
        with e2 have "trace w' = trace w @ (e1 @ e2 @ e3)" "list_all is_prelude (e1 @ e2 @ e3)"
          by simp_all
        then show ?thesis by (rule stop)
      next
        case c3: (resolved u3 w3)
        from setup_prelude [OF c3(1)] obtain e3 where
          "trace w3 = trace w2 @ e3" "list_all is_prelude e3" by blast
        with e2 have "trace w3 = trace w @ (e1 @ e2 @ e3)"
                     "list_all is_prelude (e1 @ e2 @ e3)"
          by simp_all
        then obtain p where p: "trace w3 = trace w @ p" "list_all is_prelude p" by blast
        from c3(2) show ?thesis
        proof (cases rule: await_cases)
          case (rejected err)
          from createVectorSearchIndex_step [OF rejected(1)] show ?thesis by simp
        next
          case c4: (resolved u4 w4)
          from createVectorSearchIndex_step [OF c4(1)] obtain ix where
            ix: "trace w4 = trace w3 @ ix" "index_step ix" by blast
          have after_clear: "\<exists>evs. trace w' = trace w @ evs \<and> run_shape (prompt e) evs"
            if t: "trace w' = trace w4 @ (DeleteMany ''items'', b) # rest"
               and rest: "rest = [] \<or> b \<and> (\<exists>bl tail. rest = (LlmInvoke (prompt e), bl) # tail
                                           \<and> list_all is_loop tail \<and> (bl \<or> tail = []))"
            for b rest
          proof (intro exI [of _ "p @ ix @ (DeleteMany ''items'', b) # rest"] conjI)
            from t ix(1) p(1)
            show "trace w' = trace w @ p @ ix @ (DeleteMany ''items'', b) # rest" by simp
            from p(2) ix(2) rest
            show "run_shape (prompt e) (p @ ix @ (DeleteMany ''items'', b) # rest)"
              by (rule run_shape_cleared)
          qed
          from c4(2) show ?thesis
          proof (cases rule: await_cases)
            case (rejected err)
            from deleteMany_trace [OF rejected(1)]
            have "trace w' = trace w4 @ (DeleteMany ''items'', False) # []" by simp
            then show ?thesis by (rule after_clear) auto
          next
            case c5: (resolved u5 w5)
            from deleteMany_trace [OF c5(1)]
            have e5: "trace w5 = trace w4 @ [(DeleteMany ''items'', True)]" by simp
            from c5(2) show ?thesis
            proof (cases rule: await_cases)
              case (rejected err)
              from generateSyntheticData_trace [OF rejected(1)] e5 rejected(2)
              have "trace w' = trace w4 @ (DeleteMany ''items'', True)
                                # [(LlmInvoke (prompt e), isl r0 = False)]"
                by simp
              then show ?thesis by (rule after_clear) auto
            next
              case c6: (resolved syntheticData w6)
              from generateSyntheticData_trace [OF c6(1)] e5
              have e6: "trace w6 = trace w4 @ (DeleteMany ''items'', True)
                                # [(LlmInvoke (prompt e), True)]"
                by simp
              from c6(2) show ?thesis
              proof (cases rule: await_cases)
                case (rejected err)
                from summaries_silent [OF rejected(1)] e6
                have "trace w' = trace w4 @ (DeleteMany ''items'', True)
                                # [(LlmInvoke (prompt e), True)]"
                  by simp
                then show ?thesis by (rule after_clear) auto
              next
                case c7: (resolved recordsWithSummaries w7)
                from summaries_silent [OF c7(1)] have "w7 = w6" .
                with for_of_trace [OF c7(2)] obtain tail where
                  tail: "trace w' = trace w6 @ tail" "list_all is_loop tail" by blast
                with e6
                have t: "trace w' = trace w4 @ (DeleteMany ''items'', True)
                                # ((LlmInvoke (prompt e), True) # tail)"
                  by simp
                show ?thesis by (rule after_clear [OF t]) (use tail(2) in auto)
              qed
            qed
          qed
        qed
      qed
    qed
  qed
  with r show ?thesis by simp
qed

lemma prelude_not_write: "list_all is_prelude p \<Longrightarrow> list_all (\<lambda>x. \<not> is_write x) p"
proof (induction p)
  case Nil
  then show ?case by simp
next
  case (Cons x xs)
  obtain c b where "x = (c, b)" by (cases x)
  with Cons show ?case by (cases c) simp_all
qed

lemma prelude_not_index:
  "list_all is_prelude p \<Longrightarrow> (CreateSearchIndex nm idx, b) \<notin> set p"
  by (induction p) auto

lemma loop_not_index:
  "list_all is_loop p \<Longrightarrow> (CreateSearchIndex nm idx, b) \<notin> set p"
  by (induction p) auto

lemma index_step_not_write: "index_step ix \<Longrightarrow> list_all (\<lambda>x. \<not> is_write x) ix"
  by (auto simp: index_step_def)

lemma write_beyond_head:
  assumes "head @ tail = pre @ ev # post" and "list_all (\<lambda>x. \<not> is_write x) head"
      and "is_write ev"
  shows "\<exists>mid. pre = head @ mid"
proof -
  from assms(1) consider (a) us where "head = pre @ us" "us @ tail = ev # post"
    | (b) us where "head @ us = pre" "tail = us @ ev # post"
    by (auto simp: append_eq_append_conv2)
  then show ?thesis
  proof cases
    case a
    show ?thesis
    proof (cases us)
      case Nil
      with a show ?thesis by simp
    next
      case (Cons u us')
      with a have "ev \<in> set head" by simp
      with assms(2,3) show ?thesis by (simp add: list_all_iff)
    qed
  next
    case b
    then show ?thesis by auto
  qed
qed

text \<open>
  C7, as the code has it: in a run of \<open>seedDatabase\<close>, the calls made before any
  insert of a document are, in this order, those of the prelude, the index step (the
  drop of the indexes, and the attempt to create \<open>vector_index\<close> when the drop
  succeeded), the successful \<open>deleteMany\<close> on \<open>items\<close>, the answered call of the model,
  and earlier calls of the write loop. The index step has been made, but it need not have
  succeeded.
\<close>

theorem index_step_and_clear_precede_every_write:
  assumes run: "seedDatabase e w = (r, w')"
      and cut: "drop (length (trace w)) (trace w') = pre @ ev # post"
      and wr: "is_write ev"
  shows "\<exists>p ix mid. list_all is_prelude p \<and> index_step ix \<and> list_all is_loop mid
           \<and> pre = p @ ix @ (DeleteMany ''items'', True) # (LlmInvoke (prompt e), True) # mid"
proof -
  from seedDatabase_structure [OF run] obtain evs where
    evs: "trace w' = trace w @ evs" "run_shape (prompt e) evs" by blast
  from evs(1) cut have eq: "evs = pre @ ev # post" by simp
  from evs(2) obtain p where p: "list_all is_prelude p"
    and shape: "evs = p
       \<or> (\<exists>ix b rest. index_step ix
             \<and> evs = p @ ix @ (DeleteMany ''items'', b) # rest
             \<and> (rest = []
                \<or> b \<and> (\<exists>bl tail. rest = (LlmInvoke (prompt e), bl) # tail
                               \<and> list_all is_loop tail \<and> (bl \<or> tail = []))))"
    unfolding run_shape_def by blast
  from shape show ?thesis
  proof
    assume "evs = p"
    with eq have e: "p @ [] = pre @ ev # post" by simp
    from write_beyond_head [OF e prelude_not_write [OF p] wr] obtain mid where
      "pre = p @ mid" ..
    with e show ?thesis by simp
  next
    assume "\<exists>ix b rest. index_step ix
             \<and> evs = p @ ix @ (DeleteMany ''items'', b) # rest
             \<and> (rest = []
                \<or> b \<and> (\<exists>bl tail. rest = (LlmInvoke (prompt e), bl) # tail
                               \<and> list_all is_loop tail \<and> (bl \<or> tail = [])))"
    then obtain ix b rest where ix: "index_step ix"
      and t: "evs = p @ ix @ (DeleteMany ''items'', b) # rest"
      and rest: "rest = [] \<or> b \<and> (\<exists>bl tail. rest = (LlmInvoke (prompt e), bl) # tail
                                         \<and> list_all is_loop tail \<and> (bl \<or> tail = []))"
      by blast
    from rest show ?thesis
    proof
      assume "rest = []"
      let ?head = "p @ ix @ [(DeleteMany ''items'', b)]"
      from t \<open>rest = []\<close> eq have e: "?head @ [] = pre @ ev # post" by simp
      have "list_all (\<lambda>x. \<not> is_write x) ?head"
        using prelude_not_write [OF p] index_step_not_write [OF ix] by simp
      from write_beyond_head [OF e this wr] obtain mid where "pre = ?head @ mid" ..
      with e show ?thesis by simp
    next
      assume "b \<and> (\<exists>bl tail. rest = (LlmInvoke (prompt e), bl) # tail
                      \<and> list_all is_loop tail \<and> (bl \<or> tail = []))"
      then obtain bl tail where b: "b" and r: "rest = (LlmInvoke (prompt e), bl) # tail"
        and loops: "list_all is_loop tail" and answered: "bl \<or> tail = []"
        by blast
      let ?head = "p @ ix @ [(DeleteMany ''items'', True), (LlmInvoke (prompt e), bl)]"
      from t b r eq have e: "?head @ tail = pre @ ev # post" by simp
      have "list_all (\<lambda>x. \<not> is_write x) ?head"
        using prelude_not_write [OF p] index_step_not_write [OF ix] by simp
      from write_beyond_head [OF e this wr] obtain mid where mid: "pre = ?head @ mid" ..
      with e have tail: "tail = mid @ ev # post" by simp
      with answered have bl: "bl" by simp
      from tail loops have "list_all is_loop mid" by simp
      with p ix mid bl show ?thesis by auto
    qed
  qed
qed


lemma await_resolved: "m w = (Inr a, w') \<Longrightarrow> await m f w = f a w'"
  by (simp add: await_def)

lemma dropIndexes_accepted:
  assumes "fault e (trace w) (DropIndexes nm) = None" and "collections w nm = Some c"
  shows "dropIndexes e nm w =
           (Inr (), w\<lparr>collections := (collections w)(nm \<mapsto> c\<lparr>indexes := []\<rparr>),
                      trace := trace w @ [(DropIndexes nm, True)]\<rparr>)"
  using assms by (simp add: dropIndexes_def external_def)

lemma createSearchIndex_accepted:
  assumes "fault e (trace w) (CreateSearchIndex nm idx) = None"
      and "collections w nm = Some c" and "index_name idx \<notin> set (map index_name (indexes c))"
  shows "createSearchIndex e nm idx w =
           (Inr (), w\<lparr>collections := (collections w)(nm \<mapsto> c\<lparr>indexes := indexes c @ [idx]\<rparr>),
                      trace := trace w @ [(CreateSearchIndex nm idx, True)]\<rparr>)"
  using assms by (simp add: createSearchIndex_def external_def)

lemma createVectorSearchIndex_accepted:
  assumes drop_ok: "\<And>t. fault e t (DropIndexes ''items'') = None"
      and create_ok: "\<And>t. fault e t (CreateSearchIndex ''items'' vectorSearchIdx) = None"
      and present: "collections w ''items'' = Some c"
  shows "createVectorSearchIndex e w =
           (Inr (), w\<lparr>collections := (collections w)(''items'' \<mapsto> c\<lparr>indexes := [vectorSearchIdx]\<rparr>),
                      trace := trace w @ recreation_calls\<rparr>)"
proof -
  let ?w1 = "w\<lparr>collections := (collections w)(''items'' \<mapsto> c\<lparr>indexes := []\<rparr>),
               trace := trace w @ [(DropIndexes ''items'', True)]\<rparr>"
  have d: "dropIndexes e ''items'' w = (Inr (), ?w1)"
    by (rule dropIndexes_accepted [OF drop_ok present])
  have c1: "collections ?w1 ''items'' = Some (c\<lparr>indexes := []\<rparr>)" by simp
  have "createSearchIndex e ''items'' vectorSearchIdx ?w1 =
          (Inr (), ?w1\<lparr>collections := (collections ?w1)(''items'' \<mapsto>
                          (c\<lparr>indexes := []\<rparr>)\<lparr>indexes := indexes (c\<lparr>indexes := []\<rparr>) @ [vectorSearchIdx]\<rparr>),
                        trace := trace ?w1 @ [(CreateSearchIndex ''items'' vectorSearchIdx, True)]\<rparr>)"
    by (rule createSearchIndex_accepted [OF create_ok c1]) simp
  with d show ?thesis
    by (simp add: createVectorSearchIndex_def try_catch_def await_def recreation_calls_def)
qed

text \<open>
  C6: index recreation is drop-then-create and idempotent. Whenever the collection exists
  and the environment fails neither the drop nor the creation, a run returns normally
  after exactly these two calls and leaves \<open>items\<close> with the single index
  \<open>vector_index\<close> (cosine similarity, 768 dimensions), whatever indexes it had; a second
  run makes the same two calls and leaves the collections as the first run left them.
  In any environment whatever, a run returns normally and its calls are the drop, followed
  by the creation only if the drop succeeded.
\<close>

theorem createVectorSearchIndex_idempotent:
  assumes drop_ok: "\<And>t. fault e t (DropIndexes ''items'') = None"
      and create_ok: "\<And>t. fault e t (CreateSearchIndex ''items'' vectorSearchIdx) = None"
      and present: "collections w ''items'' = Some c"
      and once: "w1 = snd (createVectorSearchIndex e w)"
      and twice: "w2 = snd (createVectorSearchIndex e w1)"
      and any_run: "createVectorSearchIndex e0 w0 = (r0, w0')"
  shows "createVectorSearchIndex e w = (Inr (), w1)
       \<and> trace w1 = trace w @ recreation_calls
       \<and> collections w1 = (collections w)(''items'' \<mapsto> c\<lparr>indexes := [vectorSearchIdx]\<rparr>)
       \<and> createVectorSearchIndex e w1 = (Inr (), w2)
       \<and> trace w2 = trace w1 @ recreation_calls
       \<and> collections w2 = collections w1
       \<and> index_name vectorSearchIdx = ''vector_index''
       \<and> map similarity (definition_fields vectorSearchIdx) = [''cosine'']
       \<and> map numdimensions (definition_fields vectorSearchIdx) = [768]
       \<and> r0 = Inr () \<and> index_step (drop (length (trace w0)) (trace w0'))"
proof -
  note first = createVectorSearchIndex_accepted [OF drop_ok create_ok present]
  from first once have w1: "createVectorSearchIndex e w = (Inr (), w1)"
    "trace w1 = trace w @ recreation_calls"
    "collections w1 = (collections w)(''items'' \<mapsto> c\<lparr>indexes := [vectorSearchIdx]\<rparr>)"
    by simp_all
  from w1(3) have present1: "collections w1 ''items'' = Some (c\<lparr>indexes := [vectorSearchIdx]\<rparr>)"
    by simp
  note second = createVectorSearchIndex_accepted [OF drop_ok create_ok present1]
  from second twice have w2: "createVectorSearchIndex e w1 = (Inr (), w2)"
    "trace w2 = trace w1 @ recreation_calls"
    "collections w2 = collections w1"
    by (simp_all add: w1(3))
  from createVectorSearchIndex_step [OF any_run]
  have "r0 = Inr () \<and> index_step (drop (length (trace w0)) (trace w0'))" by auto
  with w1 w2 show ?thesis by (simp add: vectorSearchIdx_def)
qed

lemma other_calls_accepted:
  assumes "only_index_creation_fails e"
  shows "fault e t Connect = None" "fault e t Ping = None"
    "fault e t (ListCollections nm) = None" "fault e t (CreateCollection nm) = None"
    "fault e t (DropIndexes nm) = None" "fault e t (DeleteMany nm) = None"
    "fault e t (LlmInvoke pr) = None" "fault e t (EmbedDocuments texts) = None"
    "fault e t (InsertMany nm docs) = None"
    "fault e t (CreateSearchIndex nm idx) \<noteq> None"
  using assms by (simp_all add: only_index_creation_fails_def)

lemma setup_accepted:
  assumes "only_index_creation_fails e"
  shows "setupDatabaseAndCollection e w =
     (Inr (),
      \<lparr>collections =
          (case collections w ''items'' of
             None \<Rightarrow> (collections w)(''items'' \<mapsto> \<lparr>indexes = [], documents = []\<rparr>)
           | Some c \<Rightarrow> collections w),
       trace = trace w @ (ListCollections ''items'', True)
                 # (case collections w ''items'' of
                      None \<Rightarrow> [(CreateCollection ''items'', True)] | Some c \<Rightarrow> [])\<rparr>)"
  by (cases w)
     (simp add: setupDatabaseAndCollection_def await_def listCollections_def
                createCollection_def external_def resolve_def other_calls_accepted [OF assms]
           split: option.splits)

lemma index_creation_refused:
  assumes only: "only_index_creation_fails e" and present: "collections w ''items'' = Some c"
  shows "createVectorSearchIndex e w =
     (Inr (),
      \<lparr>collections = (collections w)(''items'' \<mapsto> c\<lparr>indexes := []\<rparr>),
       trace = trace w @ [(DropIndexes ''items'', True),
                          (CreateSearchIndex ''items'' vectorSearchIdx, False)]\<rparr>)"
proof -
  let ?w1 = "w\<lparr>collections := (collections w)(''items'' \<mapsto> c\<lparr>indexes := []\<rparr>),
               trace := trace w @ [(DropIndexes ''items'', True)]\<rparr>"
  have d: "dropIndexes e ''items'' w = (Inr (), ?w1)"
    by (rule dropIndexes_accepted [OF other_calls_accepted(5) [OF only] present])
  obtain err where
    "fault e (trace ?w1) (CreateSearchIndex ''items'' vectorSearchIdx) = Some err"
    using other_calls_accepted(10) [OF only] by blast
  then have "createSearchIndex e ''items'' vectorSearchIdx ?w1 =
          (Inl err, ?w1\<lparr>trace := trace ?w1 @ [(CreateSearchIndex ''items'' vectorSearchIdx, False)]\<rparr>)"
    by (simp add: createSearchIndex_def external_def)
  with d show ?thesis
    by (cases w) (simp add: createVectorSearchIndex_def try_catch_def await_def resolve_def)
qed

lemma deleteMany_accepted:
  assumes only: "only_index_creation_fails e" and present: "collections w ''items'' = Some c"
  shows "deleteMany e ''items'' w =
     (Inr (),
      \<lparr>collections = (collections w)(''items'' \<mapsto> c\<lparr>documents := []\<rparr>),
       trace = trace w @ [(DeleteMany ''items'', True)]\<rparr>)"
  using present
  by (cases w) (simp add: deleteMany_def external_def other_calls_accepted [OF only])

lemma generate_answered:
  assumes only: "only_index_creation_fails e"
  shows "generateSyntheticData e w =
     (Inr (generated_records e),
      \<lparr>collections = collections w, trace = trace w @ [(LlmInvoke (prompt e), True)]\<rparr>)"
  by (cases w)
     (simp add: generateSyntheticData_def await_def llm_invoke_def external_def try_catch_def
                settled_def resolve_def throw_def generated_records_def
                other_calls_accepted [OF only]
           split: sum.splits parsed.splits)

lemma summaries_compiled:
  "promise_all
     (map (\<lambda>record. await (createItemSummary num record)
                       (\<lambda>s. resolve \<lparr>pageContent = s, metadata = record\<rparr>)) xs) w
   = (Inr (map (\<lambda>record. \<lparr>pageContent = summary_text num record, metadata = record\<rparr>) xs), w)"
  by (induction xs)
     (simp_all add: resolve_def await_def createItemSummary_def summary_text_def Let_def)

lemma write_accepted:
  assumes only: "only_index_creation_fails e" and present: "collections w ''items'' = Some c"
  shows "\<exists>w1. fromDocuments e [d] ''items'' w = (Inr (), w1)
            \<and> collections w1 =
                (collections w)(''items'' \<mapsto> c\<lparr>documents := documents c @ [stored_of e d]\<rparr>)
            \<and> trace w1 = trace w @ [(EmbedDocuments [pageContent d], True),
                                     (InsertMany ''items'' [stored_of e d], True)]"
  using present
  by (simp add: fromDocuments_def await_def embedDocuments_def insertMany_def external_def
                stored_of_def other_calls_accepted [OF only])

lemma writes_accepted:
  assumes only: "only_index_creation_fails e"
  shows "collections w ''items'' = Some c \<Longrightarrow>
     \<exists>w'. for_of docs (\<lambda>record. fromDocuments e [record] ''items'') w = (Inr (), w')
        \<and> collections w' =
            (collections w)(''items'' \<mapsto> c\<lparr>documents := documents c @ map (stored_of e) docs\<rparr>)
        \<and> trace w' = trace w @ write_calls e docs"
proof (induction docs arbitrary: w c)
  case Nil
  then show ?case by (simp add: resolve_def write_calls_def map_upd_triv)
next
  case (Cons d ds)
  let ?c1 = "c\<lparr>documents := documents c @ [stored_of e d]\<rparr>"
  from write_accepted [OF only Cons.prems] obtain w1 where
    step: "fromDocuments e [d] ''items'' w = (Inr (), w1)"
    and c1: "collections w1 = (collections w)(''items'' \<mapsto> ?c1)"
    and t1: "trace w1 = trace w @ [(EmbedDocuments [pageContent d], True),
                                   (InsertMany ''items'' [stored_of e d], True)]"
    by blast
  from c1 have present: "collections w1 ''items'' = Some ?c1" by simp
  from Cons.IH [OF present] obtain w' where
    rest: "for_of ds (\<lambda>record. fromDocuments e [record] ''items'') w1 = (Inr (), w')"
    and c': "collections w' =
               (collections w1)(''items'' \<mapsto> ?c1\<lparr>documents := documents ?c1 @ map (stored_of e) ds\<rparr>)"
    and t': "trace w' = trace w1 @ write_calls e ds"
    by blast
  have "for_of (d # ds) (\<lambda>record. fromDocuments e [record] ''items'') w = (Inr (), w')"
    by (simp add: await_def step rest)
  moreover from c' c1 have "collections w' =
      (collections w)(''items'' \<mapsto> c\<lparr>documents := documents c @ map (stored_of e) (d # ds)\<rparr>)"
    by simp
  moreover from t' t1 have "trace w' = trace w @ write_calls e (d # ds)"
    by (simp add: write_calls_def)
  ultimately show ?case by blast
qed

lemma seedDatabase_when_only_index_creation_fails:
  assumes only: "only_index_creation_fails e"
  shows "seedDatabase e w =
     (Inr (),
      \<lparr>collections =
          (collections w)(''items'' \<mapsto>
             \<lparr>indexes = [], documents = map (stored_of e) (page_documents e)\<rparr>),
       trace = trace w
         @ [(Connect, True), (Ping, True), (ListCollections ''items'', True)]
         @ (if collections w ''items'' = None then [(CreateCollection ''items'', True)] else [])
         @ [(DropIndexes ''items'', True), (CreateSearchIndex ''items'' vectorSearchIdx, False),
            (DeleteMany ''items'', True), (LlmInvoke (prompt e), True)]
         @ write_calls e (page_documents e)\<rparr>)"
proof -
  define c1 where "c1 = (case collections w ''items'' of
                           None \<Rightarrow> \<lparr>indexes = [], documents = []\<rparr> | Some c \<Rightarrow> c)"
  define w1 where "w1 = w\<lparr>trace := trace w @ [(Connect, True)]\<rparr>"
  define w2 where "w2 = w1\<lparr>trace := trace w1 @ [(Ping, True)]\<rparr>"
  define w3 where "w3 =
    \<lparr>collections = (collections w)(''items'' \<mapsto> c1),
     trace = trace w @ [(Connect, True), (Ping, True), (ListCollections ''items'', True)]
         @ (if collections w ''items'' = None then [(CreateCollection ''items'', True)] else [])\<rparr>"
  define w4 where "w4 =
    \<lparr>collections = (collections w)(''items'' \<mapsto> c1\<lparr>indexes := []\<rparr>),
     trace = trace w3 @ [(DropIndexes ''items'', True),
                         (CreateSearchIndex ''items'' vectorSearchIdx, False)]\<rparr>"
  define w5 where "w5 =
    \<lparr>collections = (collections w)(''items'' \<mapsto> \<lparr>indexes = [], documents = []\<rparr>),
     trace = trace w4 @ [(DeleteMany ''items'', True)]\<rparr>"
  define w6 where "w6 =
    \<lparr>collections = collections w5, trace = trace w5 @ [(LlmInvoke (prompt e), True)]\<rparr>"
  define w8 where "w8 =
    \<lparr>collections = (collections w)(''items'' \<mapsto>
        \<lparr>indexes = [], documents = map (stored_of e) (page_documents e)\<rparr>),
     trace = trace w6 @ write_calls e (page_documents e)\<rparr>"
  have s1: "connect e w = (Inr (), w1)"
    by (simp add: connect_def external_def w1_def other_calls_accepted [OF only])
  have s2: "ping e w1 = (Inr (), w2)"
    by (simp add: ping_def external_def w2_def other_calls_accepted [OF only])
  have s3: "setupDatabaseAndCollection e w2 = (Inr (), w3)"
    using setup_accepted [OF only, of w2]
    by (cases "collections w ''items''") (simp_all add: w1_def w2_def w3_def c1_def map_upd_triv)
  have p3: "collections w3 ''items'' = Some c1" by (simp add: w3_def)
  have s4: "createVectorSearchIndex e w3 = (Inr (), w4)"
    using index_creation_refused [OF only p3] by (simp add: w4_def) (simp add: w3_def)
  have p4: "collections w4 ''items'' = Some (c1\<lparr>indexes := []\<rparr>)" by (simp add: w4_def)
  have cleared: "c1\<lparr>indexes := [], documents := []\<rparr> = \<lparr>indexes = [], documents = []\<rparr>"
    by (cases c1) simp
  have s5: "deleteMany e ''items'' w4 = (Inr (), w5)"
    using deleteMany_accepted [OF only p4] by (simp add: w5_def) (simp add: w4_def cleared)
  have p6: "collections w6 ''items'' = Some \<lparr>indexes = [], documents = []\<rparr>"
    by (simp add: w6_def w5_def)
  have s6: "generateSyntheticData e w5 = (Inr (generated_records e), w6)"
    using generate_answered [OF only, of w5] by (simp add: w6_def)
  have s7: "promise_all
     (map (\<lambda>record. await (createItemSummary (number_toString e) record)
                       (\<lambda>s. resolve \<lparr>pageContent = s, metadata = record\<rparr>))
          (generated_records e)) w6 = (Inr (page_documents e), w6)"
    by (simp add: summaries_compiled page_documents_def)
  have a7: "await (promise_all
     (map (\<lambda>record. await (createItemSummary (number_toString e) record)
                       (\<lambda>s. resolve \<lparr>pageContent = s, metadata = record\<rparr>))
          (generated_records e))) f w6 = f (page_documents e) w6" for f
    by (subst await_def) (simp add: s7)
  from writes_accepted [OF only p6, of "page_documents e"] obtain w8' where
    s8: "for_of (page_documents e) (\<lambda>record. fromDocuments e [record] ''items'') w6
              = (Inr (), w8')"
    and c8: "collections w8' = (collections w6)(''items'' \<mapsto>
               \<lparr>indexes = [], documents = map (stored_of e) (page_documents e)\<rparr>)"
    and t8: "trace w8' = trace w6 @ write_calls e (page_documents e)"
    by auto
  have "w8' = \<lparr>collections = collections w8', trace = trace w8'\<rparr>" by simp
  with c8 t8 have "w8' = w8" by (simp add: w8_def w6_def w5_def)
  with s8 have s8: "for_of (page_documents e) (\<lambda>record. fromDocuments e [record] ''items'') w6
              = (Inr (), w8)"
    by simp
  have "seedDatabase e w = (Inr (), w8)"
    unfolding seedDatabase_def
    by (simp add: try_catch_def
          await_resolved [where m = "connect e" and w = w, OF s1]
          await_resolved [where m = "ping e" and w = w1, OF s2]
          await_resolved [where m = "setupDatabaseAndCollection e" and w = w2, OF s3]
          await_resolved [where m = "createVectorSearchIndex e" and w = w3, OF s4]
          await_resolved [where m = "deleteMany e ''items''" and w = w4, OF s5]
          await_resolved [where m = "generateSyntheticData e" and w = w5, OF s6]
          a7 s8)
  then show ?thesis by (simp add: w8_def w6_def w5_def w4_def w3_def)
qed

text \<open>
  C4, as the code has it: a failure of the index creation is caught inside
  \<open>createVectorSearchIndex\<close> and does not stop the run of \<open>seedDatabase\<close>: the run
  returns normally, and its next call after the failed creation is the \<open>deleteMany\<close>
  that clears the collection. When the creation of the index is the only call that fails,
  the run goes on to the end: it clears the collection, calls the model and writes every
  generated record, and leaves \<open>items\<close> with exactly these documents and with no index.
\<close>

theorem index_failure_is_not_fatal:
  assumes run: "seedDatabase e w = (r, w')"
      and failed: "(CreateSearchIndex ''items'' vectorSearchIdx, False)
                     \<in> set (drop (length (trace w)) (trace w'))"
  shows "r = Inr ()
       \<and> (\<exists>pre b post. drop (length (trace w)) (trace w')
             = pre @ (CreateSearchIndex ''items'' vectorSearchIdx, False)
                   # (DeleteMany ''items'', b) # post)
       \<and> (only_index_creation_fails e \<longrightarrow>
            collections w' =
              (collections w)(''items'' \<mapsto>
                 \<lparr>indexes = [], documents = map (stored_of e) (page_documents e)\<rparr>)
            \<and> drop (length (trace w)) (trace w') =
                [(Connect, True), (Ping, True), (ListCollections ''items'', True)]
                @ (if collections w ''items'' = None
                   then [(CreateCollection ''items'', True)] else [])
                @ [(DropIndexes ''items'', True),
                   (CreateSearchIndex ''items'' vectorSearchIdx, False),
                   (DeleteMany ''items'', True), (LlmInvoke (prompt e), True)]
                @ write_calls e (page_documents e))"
proof -
  let ?failure = "(CreateSearchIndex ''items'' vectorSearchIdx, False) :: ('a, 'b) event"
  from seedDatabase_structure [OF run] obtain evs where
    r: "r = Inr ()" and evs: "trace w' = trace w @ evs" "run_shape (prompt e) evs" by blast
  from evs(1) failed have mem: "?failure \<in> set evs" by simp
  from evs(2) obtain p where p: "list_all is_prelude p"
    and shape: "evs = p
       \<or> (\<exists>ix b rest. index_step ix
             \<and> evs = p @ ix @ (DeleteMany ''items'', b) # rest
             \<and> (rest = []
                \<or> b \<and> (\<exists>bl tail. rest = (LlmInvoke (prompt e), bl) # tail
                               \<and> list_all is_loop tail \<and> (bl \<or> tail = []))))"
    unfolding run_shape_def by blast
  from mem prelude_not_index [OF p] have "evs \<noteq> p" by auto
  with shape obtain ix b rest where ix: "index_step ix"
      and t: "evs = p @ ix @ (DeleteMany ''items'', b) # rest"
      and rest: "rest = [] \<or> b \<and> (\<exists>bl tail. rest = (LlmInvoke (prompt e), bl) # tail
                                         \<and> list_all is_loop tail \<and> (bl \<or> tail = []))"
    by blast
  from rest have "?failure \<notin> set rest" by (auto dest: loop_not_index)
  with mem t prelude_not_index [OF p] have "?failure \<in> set ix" by auto
  with ix have "ix = [(DropIndexes ''items'', True), ?failure]"
    by (auto simp: index_step_def)
  with t have "evs = (p @ [(DropIndexes ''items'', True)]) @ ?failure
                       # (DeleteMany ''items'', b) # rest"
    by simp
  with evs(1) have "drop (length (trace w)) (trace w')
             = (p @ [(DropIndexes ''items'', True)]) @ ?failure # (DeleteMany ''items'', b) # rest"
    by simp
  then have seq: "\<exists>pre b post. drop (length (trace w)) (trace w')
             = pre @ ?failure # (DeleteMany ''items'', b) # post"
    by (intro exI)
  have whole: "collections w' =
              (collections w)(''items'' \<mapsto>
                 \<lparr>indexes = [], documents = map (stored_of e) (page_documents e)\<rparr>)
            \<and> drop (length (trace w)) (trace w') =
                [(Connect, True), (Ping, True), (ListCollections ''items'', True)]
                @ (if collections w ''items'' = None
                   then [(CreateCollection ''items'', True)] else [])
                @ [(DropIndexes ''items'', True),
                   (CreateSearchIndex ''items'' vectorSearchIdx, False),
                   (DeleteMany ''items'', True), (LlmInvoke (prompt e), True)]
                @ write_calls e (page_documents e)"
    if only: "only_index_creation_fails e"
    using seedDatabase_when_only_index_creation_fails [OF only, of w] run by auto
  from r seq whole show ?thesis by blast
qed

lemma decimal_examples:
  "int_to_string 120 = ''120''" "int_to_string 90 = ''90''" "int_to_string 5 = ''5''"
  by (simp_all add: int_to_string_def digit_char_def)

lemma oak_chair_compiled:
  "createItemSummary int_to_string oak_chair w = (Inr oak_chair_summary, w)"
  by (simp add: createItemSummary_def oak_chair_def oak_chair_summary_def decimal_examples
                resolve_def Let_def)

lemma setup_world0: "setupDatabaseAndCollection env_ok world0 = (Inr (), world1)"
  by (simp add: setupDatabaseAndCollection_def await_def listCollections_def external_def
                createCollection_def env_ok_def world0_def world1_def)

lemma setup_world1:
  "setupDatabaseAndCollection env_ok world1 =
     (Inr (), world1\<lparr>trace := trace world1 @ [(ListCollections ''items'', True)]\<rparr>)"
  by (simp add: setupDatabaseAndCollection_def await_def listCollections_def external_def
                resolve_def env_ok_def world1_def)

text \<open>The first run on an empty database creates \<open>items\<close>; the second only lists.\<close>

theorem setupDatabaseAndCollection_idempotent_witness:
  "setupDatabaseAndCollection env_ok world0 = (Inr (), world1)
   \<and> collections (snd (setupDatabaseAndCollection env_ok world1)) = collections world1
   \<and> trace (snd (setupDatabaseAndCollection env_ok world1))
       = trace world1 @ [(ListCollections ''items'', True)]"
  using setupDatabaseAndCollection_idempotent [OF setup_world0 setup_world1] setup_world0
  by (simp add: setup_world1)

lemma index_world1: "createVectorSearchIndex env_ok world1 = (Inr (), world2)"
  by (simp add: createVectorSearchIndex_def try_catch_def await_def dropIndexes_def
                createSearchIndex_def external_def env_ok_def world1_def world2_def)

text \<open>
  Two runs in a row on the freshly created collection, in the environment where nothing
  fails; the run beside them is the one whose creation is refused.
\<close>

theorem createVectorSearchIndex_idempotent_witness:
  "createVectorSearchIndex env_ok world1 = (Inr (), world2)
   \<and> collections world2 ''items'' = Some \<lparr>indexes = [vectorSearchIdx], documents = []\<rparr>
   \<and> createVectorSearchIndex env_ok world2
       = (Inr (), snd (createVectorSearchIndex env_ok world2))
   \<and> collections (snd (createVectorSearchIndex env_ok world2)) = collections world2
   \<and> trace (snd (createVectorSearchIndex env_ok world2)) = trace world2 @ recreation_calls"
proof -
  have present: "collections world1 ''items'' = Some \<lparr>indexes = [], documents = []\<rparr>"
    by (simp add: world1_def)
  have once: "world2 = snd (createVectorSearchIndex env_ok world1)"
    by (simp add: index_world1)
  have any_run: "createVectorSearchIndex env_index_fails world1
                   = (fst (createVectorSearchIndex env_index_fails world1),
                      snd (createVectorSearchIndex env_index_fails world1))"
    by simp
  have c: "collections world2 ''items'' = Some \<lparr>indexes = [vectorSearchIdx], documents = []\<rparr>"
    by (simp add: world2_def)
  from createVectorSearchIndex_idempotent
         [of env_ok world1 "\<lparr>indexes = [], documents = []\<rparr>" world2
             "snd (createVectorSearchIndex env_ok world2)", OF _ _ present once refl any_run]
       c
  show ?thesis by (simp add: env_ok_def)
qed

lemma second_write_fails:
  "fst (for_of three_documents (\<lambda>record. fromDocuments env_second_write_fails [record] ''items'')
          world1) = Inl (Err ''write refused'')"
  "map embedding_text
     (documents (the (collections
        (snd (for_of three_documents
                (\<lambda>record. fromDocuments env_second_write_fails [record] ''items'') world1))
        ''items''))) = [''first'']"
  by (simp_all add: three_documents_def fromDocuments_def await_def embedDocuments_def
                insertMany_def external_def env_second_write_fails_def env_ok_def world1_def)

text \<open>Three records, the write of the second refused: the first one stays stored.\<close>

theorem earlier_writes_survive_failure_witness:
  "fst (for_of three_documents (\<lambda>record. fromDocuments env_second_write_fails [record] ''items'')
          world1) = Inl (Err ''write refused'')
   \<and> (\<exists>k\<le>length three_documents.
         collections (snd (for_of three_documents
                (\<lambda>record. fromDocuments env_second_write_fails [record] ''items'') world1)) =
             (collections world1)(''items'' \<mapsto>
                \<lparr>indexes = [],
                 documents = map (stored_of env_second_write_fails) (take k three_documents)\<rparr>)
         \<and> k < length three_documents)"
proof -
  let ?run = "for_of three_documents
                (\<lambda>record. fromDocuments env_second_write_fails [record] ''items'') world1"
  have h1: "?run = (fst ?run, snd ?run)" by simp
  have h2: "collections world1 ''items'' = Some \<lparr>indexes = [], documents = []\<rparr>"
    by (simp add: world1_def)
  from earlier_writes_survive_failure [OF h1 h2] second_write_fails(1)
  show ?thesis by auto
qed

lemma env_ok_fields:
  "fault env_ok = (\<lambda>t c. None)"
  "llm_content env_ok = (\<lambda>p. ''{}'')"
  "parse env_ok = (\<lambda>s. Inr (ParsedObject oak_chair))"
  "embedQuery env_ok = (\<lambda>t. [0, 0, 0])"
  "number_toString env_ok = int_to_string"
  by (simp_all add: env_ok_def)

lemma env_index_fails_fields:
  "fault env_index_fails =
     (\<lambda>t c. case c of
               CreateSearchIndex nm idx \<Rightarrow> Some (Err ''index build failed'')
             | _ \<Rightarrow> None)"
  "llm_content env_index_fails = (\<lambda>p. ''{}'')"
  "parse env_index_fails = (\<lambda>s. Inr (ParsedObject oak_chair))"
  "embedQuery env_index_fails = (\<lambda>t. [0, 0, 0])"
  "number_toString env_index_fails = int_to_string"
  by (simp_all add: env_index_fails_def env_ok_def)

lemmas run_defs =
  seedDatabase_def try_catch_def await_def connect_def ping_def setupDatabaseAndCollection_def
  listCollections_def createCollection_def createVectorSearchIndex_def dropIndexes_def
  createSearchIndex_def deleteMany_def generateSyntheticData_def llm_invoke_def settled_def
  resolve_def fromDocuments_def embedDocuments_def insertMany_def external_def
  oak_chair_compiled oak_chair_stored_def

lemma seedDatabase_env_ok:
  "trace (snd (seedDatabase env_ok world0)) =
     [(Connect, True), (Ping, True), (ListCollections ''items'', True),
      (CreateCollection ''items'', True), (DropIndexes ''items'', True),
      (CreateSearchIndex ''items'' vectorSearchIdx, True), (DeleteMany ''items'', True),
      (LlmInvoke (prompt env_ok), True), (EmbedDocuments [oak_chair_summary], True),
      (InsertMany ''items'' [oak_chair_stored], True)]"
  by (simp add: run_defs env_ok_fields world0_def)

lemma seedDatabase_env_index_fails:
  "trace (snd (seedDatabase env_index_fails world0)) =
     [(Connect, True), (Ping, True), (ListCollections ''items'', True),
      (CreateCollection ''items'', True), (DropIndexes ''items'', True),
      (CreateSearchIndex ''items'' vectorSearchIdx, False), (DeleteMany ''items'', True),
      (LlmInvoke (prompt env_index_fails), True), (EmbedDocuments [oak_chair_summary], True),
      (InsertMany ''items'' [oak_chair_stored], True)]"
  "collections (snd (seedDatabase env_index_fails world0)) ''items''
     = Some \<lparr>indexes = [], documents = [oak_chair_stored]\<rparr>"
  by (simp_all add: run_defs env_index_fails_fields world0_def)

text \<open>
  A run in which every call succeeds and the parser returns one record: the only insert
  is the last call, after the drop, the creation, the clear and the call of the model.
\<close>

theorem index_step_and_clear_precede_every_write_witness:
  "is_write (InsertMany ''items'' [oak_chair_stored], True)
   \<and> (\<exists>p ix mid. list_all is_prelude p \<and> index_step ix \<and> list_all is_loop mid
         \<and> ([(Connect, True), (Ping, True), (ListCollections ''items'', True),
              (CreateCollection ''items'', True), (DropIndexes ''items'', True),
              (CreateSearchIndex ''items'' vectorSearchIdx, True), (DeleteMany ''items'', True),
              (LlmInvoke (prompt env_ok), True),
              (EmbedDocuments [oak_chair_summary], True)] :: (int, nat list) event list)
            = p @ ix @ (DeleteMany ''items'', True) # (LlmInvoke (prompt env_ok), True) # mid)"
proof -
  let ?run = "seedDatabase env_ok world0"
  have h1: "?run = (fst ?run, snd ?run)" by simp
  have h2: "drop (length (trace world0)) (trace (snd ?run)) =
      [(Connect, True), (Ping, True), (ListCollections ''items'', True),
        (CreateCollection ''items'', True), (DropIndexes ''items'', True),
        (CreateSearchIndex ''items'' vectorSearchIdx, True), (DeleteMany ''items'', True),
        (LlmInvoke (prompt env_ok), True),
        (EmbedDocuments [oak_chair_summary], True)]
      @ (InsertMany ''items'' [oak_chair_stored], True) # []"
    by (simp add: seedDatabase_env_ok) (simp add: world0_def)
  have h3: "is_write (InsertMany ''items'' [oak_chair_stored], True)"
    by simp
  from index_step_and_clear_precede_every_write [OF h1 h2 h3] h3 show ?thesis by simp
qed

lemma env_drop_fails_fields:
  "fault env_drop_fails =
     (\<lambda>t c. case c of DropIndexes nm \<Rightarrow> Some (Err ''drop refused'') | _ \<Rightarrow> None)"
  "llm_content env_drop_fails = (\<lambda>p. ''{}'')"
  "parse env_drop_fails = (\<lambda>s. Inr (ParsedObject oak_chair))"
  "embedQuery env_drop_fails = (\<lambda>t. [0, 0, 0])"
  "number_toString env_drop_fails = int_to_string"
  by (simp_all add: env_drop_fails_def env_ok_def)

text \<open>
  A run on a collection that still carries an index of another metric and dimension, in
  which the drop of the indexes is refused: the record is written although the index was
  not recreated, and the old index stays.
\<close>

theorem write_after_refused_drop:
  "trace (snd (seedDatabase env_drop_fails world_old_index)) =
     [(Connect, True), (Ping, True), (ListCollections ''items'', True),
      (DropIndexes ''items'', False), (DeleteMany ''items'', True),
      (LlmInvoke (prompt env_drop_fails), True), (EmbedDocuments [oak_chair_summary], True),
      (InsertMany ''items'' [oak_chair_stored], True)]
   \<and> collections (snd (seedDatabase env_drop_fails world_old_index)) ''items''
       = Some \<lparr>indexes = [old_index], documents = [oak_chair_stored]\<rparr>"
  by (simp add: run_defs env_drop_fails_fields world_old_index_def)

text \<open>
  A run in which the creation of the index is refused and everything else succeeds: the
  collection is cleared and the record is written all the same, into a collection left
  without an index.
\<close>

theorem index_failure_does_not_stop_the_run:
  "trace (snd (seedDatabase env_index_fails world0)) =
     [(Connect, True), (Ping, True), (ListCollections ''items'', True),
      (CreateCollection ''items'', True), (DropIndexes ''items'', True),
      (CreateSearchIndex ''items'' vectorSearchIdx, False), (DeleteMany ''items'', True),
      (LlmInvoke (prompt env_index_fails), True), (EmbedDocuments [oak_chair_summary], True),
      (InsertMany ''items'' [oak_chair_stored], True)]
   \<and> collections (snd (seedDatabase env_index_fails world0)) ''items''
       = Some \<lparr>indexes = [], documents = [oak_chair_stored]\<rparr>"
  by (simp add: seedDatabase_env_index_fails)

lemma env_index_fails_only: "only_index_creation_fails env_index_fails"
  unfolding only_index_creation_fails_def
proof (intro allI)
  fix t and c :: "(int, nat list) call"
  show "(fault env_index_fails t c = None) = (\<forall>nm idx. c \<noteq> CreateSearchIndex nm idx)"
    by (cases c) (simp_all add: env_index_fails_fields)
qed

text \<open>The same run: it returns normally and ends with the record stored.\<close>

theorem index_failure_is_not_fatal_witness:
  "only_index_creation_fails env_index_fails
   \<and> fst (seedDatabase env_index_fails world0) = Inr ()
   \<and> (\<exists>pre b post. trace (snd (seedDatabase env_index_fails world0))
         = pre @ (CreateSearchIndex ''items'' vectorSearchIdx, False)
               # (DeleteMany ''items'', b) # post)
   \<and> collections (snd (seedDatabase env_index_fails world0)) =
        (collections world0)(''items'' \<mapsto>
           \<lparr>indexes = [],
            documents = map (stored_of env_index_fails) (page_documents env_index_fails)\<rparr>)"
proof -
  let ?run = "seedDatabase env_index_fails world0"
  have h1: "?run = (fst ?run, snd ?run)" by simp
  have h2: "(CreateSearchIndex ''items'' vectorSearchIdx, False)
              \<in> set (drop (length (trace world0)) (trace (snd ?run)))"
    by (simp add: seedDatabase_env_index_fails) (simp add: world0_def)
  have t0: "trace world0 = []" by (simp add: world0_def)
  note facts = index_failure_is_not_fatal [OF h1 h2]
  from facts have a: "fst ?run = Inr ()" by (rule conjunct1)
  from facts have "\<exists>pre b post. drop (length (trace world0)) (trace (snd ?run))
         = pre @ (CreateSearchIndex ''items'' vectorSearchIdx, False)
               # (DeleteMany ''items'', b) # post"
    by (rule conjunct1 [OF conjunct2])
  then have b: "\<exists>pre b post. trace (snd ?run)
         = pre @ (CreateSearchIndex ''items'' vectorSearchIdx, False)
               # (DeleteMany ''items'', b) # post"
    by (simp only: t0 list.size drop_0)
  from facts env_index_fails_only
  have c: "collections (snd ?run) =
        (collections world0)(''items'' \<mapsto>
           \<lparr>indexes = [],
            documents = map (stored_of env_index_fails) (page_documents env_index_fails)\<rparr>)"
    by (simp only: simp_thms)
  from env_index_fails_only a b c show ?thesis by - (intro conjI, assumption+)
qed

text \<open>
  C9: the summary compiler is pure and deterministic. The promise of
  \<open>createItemSummary\<close> leaves the world as it found it (no call is recorded, no
  collection changes), it always resolves, and the text it resolves to does not depend on
  the world it ran in, only on the record (and the rendering of numbers).
\<close>

theorem createItemSummary_pure:
  "snd (createItemSummary num item w) = w
   \<and> fst (createItemSummary num item w) = fst (createItemSummary num item w2)
   \<and> (\<exists>s. fst (createItemSummary num item w) = Inr s)"
  by (simp add: createItemSummary_def resolve_def Let_def)

text \<open>
  C2: the summary of the Oak Chair record (with a description, a brand and an address
  filled in) contains \<open>Made in USA\<close>, \<open>chairs,oak\<close>, \<open>Rated 5 on 2024-01-01: sturdy\<close>,
  \<open>$120\<close> and \<open>limited edition\<close>, but not \<open>$90\<close>: the template of line 123 writes the
  sale price without the dollar sign that line 122 puts before the full price.
\<close>

theorem oak_chair_sale_price_without_dollar:
  "createItemSummary int_to_string oak_chair () = (Inr oak_chair_summary, ())
   \<and> includes_str oak_chair_summary ''Made in USA''
   \<and> includes_str oak_chair_summary ''chairs,oak''
   \<and> includes_str oak_chair_summary ''Rated 5 on 2024-01-01: sturdy''
   \<and> includes_str oak_chair_summary ''$120''
   \<and> includes_str oak_chair_summary ''limited edition''
   \<and> includes_str oak_chair_summary ''Onsale it costs 90 USD''
   \<and> \<not> includes_str oak_chair_summary ''$90''"
  by (simp add: oak_chair_compiled) (simp add: oak_chair_summary_def newline_def starts_with_def)

text \<open>
  C1: when the agent answers, the handler of \<open>POST /chat\<close> drops the answer and sends
  nothing (the response object is left as it came, with no body), while the handler of
  \<open>POST /chat/:threadId\<close> sends the answer as \<open>{response}\<close>. When the agent fails,
  both handlers send status 500 with a generic error body.
\<close>

theorem post_chat_sends_nothing_on_success:
  "post_chat agent_replies 1700000000000 chat_request fresh_response () = (fresh_response, ())
   \<and> sent fresh_response = None
   \<and> post_chat_threadId agent_replies thread_request fresh_response ()
       = (\<lparr>statusCode = 200, sent = Some (ResponseBody ''Try the Oak Chair'')\<rparr>, ())
   \<and> post_chat agent_fails 1700000000000 chat_request fresh_response ()
       = (\<lparr>statusCode = 500, sent = Some (ErrorBody ''Internal server error'')\<rparr>, ())
   \<and> post_chat_threadId agent_fails thread_request fresh_response ()
       = (\<lparr>statusCode = 500, sent = Some (ErrorBody ''Internal server error'')\<rparr>, ())"
  by (simp add: post_chat_def post_chat_threadId_def agent_replies_def agent_fails_def
                resolve_def throw_def fresh_response_def json_def status_def Let_def)

text \<open>The four cases of the two handlers, for any agent.\<close>

lemma chat_routes:
  "callAgent (body_message req) (params_threadId req) w = (Inr reply, w') \<Longrightarrow>
     post_chat_threadId callAgent req res w = (res\<lparr>sent := Some (ResponseBody reply)\<rparr>, w')"
  "callAgent (body_message req) (params_threadId req) w = (Inl err, w') \<Longrightarrow>
     post_chat_threadId callAgent req res w
       = (res\<lparr>statusCode := 500, sent := Some (ErrorBody ''Internal server error'')\<rparr>, w')"
  "callAgent (body_message req) (nat_to_string now) w = (Inl err, w') \<Longrightarrow>
     post_chat callAgent now req res w
       = (res\<lparr>statusCode := 500, sent := Some (ErrorBody ''Internal server error'')\<rparr>, w')"
  "callAgent (body_message req) (nat_to_string now) w = (Inr reply, w') \<Longrightarrow>
     post_chat callAgent now req res w = (res, w')"
  by (simp_all add: post_chat_def post_chat_threadId_def json_def status_def Let_def
               del: nat_to_string.simps)

text \<open>When the call of the model fails, \<open>generateSyntheticData\<close> rejects.\<close>

theorem generateSyntheticData_raises_when_model_fails:
  "fst (generateSyntheticData env_llm_fails world0) = Inl (Err ''model unavailable'')"
  by (simp add: generateSyntheticData_def await_def llm_invoke_def external_def
                env_llm_fails_def env_ok_def world0_def)

text \<open>
  C3, as the code has it: the call of the model is made outside the \<open>try\<close>, so its
  failure is raised to the caller. Once the model has answered, \<open>generateSyntheticData\<close>
  never raises: a failure of the parser and an empty parse both give the empty list, an
  array gives its records and a single object gives the one record.
\<close>

theorem generateSyntheticData_outcomes:
  "generateSyntheticData e w =
     (case fault e (trace w) (LlmInvoke (prompt e)) of
        Some err \<Rightarrow> (Inl err, w\<lparr>trace := trace w @ [(LlmInvoke (prompt e), False)]\<rparr>)
      | None \<Rightarrow>
          (Inr (case parse e (llm_content e (prompt e)) of
                  Inl err \<Rightarrow> []
                | Inr (ParsedArray items) \<Rightarrow> items
                | Inr (ParsedObject item) \<Rightarrow> [item]
                | Inr ParsedFalsy \<Rightarrow> []),
           w\<lparr>trace := trace w @ [(LlmInvoke (prompt e), True)]\<rparr>))"
  by (simp add: generateSyntheticData_def await_def llm_invoke_def external_def try_catch_def
                settled_def resolve_def throw_def
           split: option.splits sum.splits parsed.splits)

text \<open>The model answers and the parser refuses the answer: the empty list.\<close>

theorem generateSyntheticData_outcomes_witness:
  "generateSyntheticData env_parse_fails world0 =
     (Inr [], world0\<lparr>trace := [(LlmInvoke (prompt env_parse_fails), True)]\<rparr>)"
  using generateSyntheticData_outcomes [of env_parse_fails world0]
  by (simp add: env_parse_fails_def env_ok_def world0_def)

lemma after_first_here: "after_first p (p @ b) = Some b"
proof (cases "p @ b")
  case Nil
  then show ?thesis by simp
next
  case (Cons c cs)
  have "starts_with (p @ b) p" by (simp add: starts_with_def)
  then have "after_first p (c # cs) = Some (drop (length p) (c # cs))"
    unfolding Cons by simp
  then show ?thesis unfolding Cons [symmetric] by simp
qed

lemma rendered_review_fun:
  "rendered_review num =
     (\<lambda>review. ''Rated '' @ num (rating review) @ '' on '' @ review_date review @ '': ''
                @ comment review)"
  by (rule ext) (simp add: rendered_review_def)

lemma after_first_splits: "after_first p s = Some r \<Longrightarrow> \<exists>pre. s = pre @ p @ r"
proof (induction s)
  case Nil
  then show ?case by (simp split: if_splits)
next
  case (Cons c cs)
  show ?case
  proof (cases "starts_with (c # cs) p")
    case True
    with Cons.prems have r: "r = drop (length p) (c # cs)" by simp
    from True have "take (length p) (c # cs) = p" by (simp add: starts_with_def)
    with r have "c # cs = [] @ p @ r" by (metis append_Nil append_take_drop_id)
    then show ?thesis by blast
  next
    case False
    with Cons.prems have "after_first p cs = Some r" by simp
    from Cons.IH [OF this] obtain pre where "cs = pre @ p @ r" ..
    then have "c # cs = (c # pre) @ p @ r" by simp
    then show ?thesis by blast
  qed
qed

lemma after_first_skip:
  "after_first p b = Some rb \<Longrightarrow> \<exists>y. after_first p (x @ b) = Some (y @ rb)"
proof (induction x)
  case Nil
  then show ?case by simp
next
  case (Cons c x)
  show ?case
  proof (cases "starts_with (c # x @ b) p")
    case True
    from after_first_splits [OF Cons.prems] obtain pre where b: "b = pre @ p @ rb" ..
    let ?u = "(c # x @ pre) @ p"
    have "c # x @ b = ?u @ rb" using b by simp
    moreover have "length p \<le> length ?u" by simp
    ultimately have "drop (length p) (c # x @ b) = drop (length p) ?u @ rb"
      by (simp only: drop_append) simp
    with True show ?thesis by simp
  next
    case False
    with Cons.IH [OF Cons.prems] show ?thesis by simp
  qed
qed

lemma in_order_skip: "in_order ps b \<Longrightarrow> in_order ps (x @ b)"
proof (induction ps arbitrary: b x)
  case Nil
  then show ?case by simp
next
  case (Cons p ps)
  from Cons.prems obtain rb where rb: "after_first p b = Some rb" "in_order ps rb"
    by (auto split: option.splits)
  from after_first_skip [OF rb(1)] obtain y where "after_first p (x @ b) = Some (y @ rb)" ..
  with Cons.IH [OF rb(2)] show ?case by simp
qed

lemma in_order_step: "in_order ps b \<Longrightarrow> in_order (p # ps) (a @ p @ b)"
proof -
  assume rest: "in_order ps b"
  from after_first_skip [OF after_first_here] obtain y where
    "after_first p (a @ p @ b) = Some (y @ b)" ..
  with in_order_skip [OF rest] show ?thesis by simp
qed

lemma six_in_order:
  "in_order [p1, p2, p3, p4, p5, p6]
     (p1 @ s1 @ p2 @ s2 @ p3 @ s3 @ p4 @ s4 @ p5 @ s5 @ p6)"
proof -
  have "in_order [p6] ([] @ p6 @ [])" by (rule in_order_step) simp
  then have "in_order [p6] (s5 @ p6)" using in_order_skip [of "[p6]" "p6" s5] by simp
  then have "in_order [p5, p6] ([] @ p5 @ s5 @ p6)" by (rule in_order_step)
  then have "in_order [p5, p6] (s4 @ p5 @ s5 @ p6)" using in_order_skip by fastforce
  then have "in_order [p4, p5, p6] ([] @ p4 @ s4 @ p5 @ s5 @ p6)" by (rule in_order_step)
  then have "in_order [p4, p5, p6] (s3 @ p4 @ s4 @ p5 @ s5 @ p6)"
    using in_order_skip by fastforce
  then have "in_order [p3, p4, p5, p6] ([] @ p3 @ s3 @ p4 @ s4 @ p5 @ s5 @ p6)"
    by (rule in_order_step)
  then have "in_order [p3, p4, p5, p6] (s2 @ p3 @ s3 @ p4 @ s4 @ p5 @ s5 @ p6)"
    using in_order_skip by fastforce
  then have "in_order [p2, p3, p4, p5, p6] ([] @ p2 @ s2 @ p3 @ s3 @ p4 @ s4 @ p5 @ s5 @ p6)"
    by (rule in_order_step)
  then have "in_order [p2, p3, p4, p5, p6] (s1 @ p2 @ s2 @ p3 @ s3 @ p4 @ s4 @ p5 @ s5 @ p6)"
    using in_order_skip by fastforce
  then have "in_order [p1, p2, p3, p4, p5, p6]
               ([] @ p1 @ s1 @ p2 @ s2 @ p3 @ s3 @ p4 @ s4 @ p5 @ s5 @ p6)"
    by (rule in_order_step)
  then show ?thesis by simp
qed

text \<open>
  C5, as the code has it: the summary is the core description (name, description and
  brand) first, then the provenance, the comma-joined categories, the reviews joined by
  spaces, the price pair and the notes, with the labels and separators of the template
  between them; these six sentences occur in the summary in that order.
\<close>

theorem createItemSummary_field_order:
  "\<exists>s. createItemSummary num item w = (Inr s, w)
      \<and> s = core_description item @ '', Manufacturer: '' @ provenance item @ '','' @ newline
            @ ''    Categories: '' @ joined_categories item @ '', Reviews: ''
            @ rendered_reviews num item @ '', Price: '' @ price_pair num item
            @ '', Notes: '' @ notes_field item
      \<and> in_order (code_field_order num item) s"
proof -
  let ?s = "core_description item @ ('', Manufacturer: '') @ provenance item
            @ ('','' @ newline @ ''    Categories: '') @ joined_categories item
            @ ('', Reviews: '') @ rendered_reviews num item
            @ ('', Price: '') @ price_pair num item
            @ ('', Notes: '') @ notes_field item"
  have run: "createItemSummary num item w = (Inr ?s, w)"
    by (simp add: createItemSummary_def resolve_def Let_def core_description_def provenance_def
                  joined_categories_def rendered_reviews_def rendered_review_fun price_pair_def)
  have "in_order (code_field_order num item) ?s"
    unfolding code_field_order_def by (rule six_in_order)
  with run show ?thesis by simp
qed

text \<open>
  For the Oak Chair record the summary does not begin with the provenance, and the
  sentences do not occur in it in the order of the specification.
\<close>

theorem spec_field_order_counterexample:
  "createItemSummary int_to_string oak_chair () = (Inr oak_chair_summary, ())
   \<and> \<not> starts_with oak_chair_summary (provenance oak_chair)
   \<and> \<not> in_order (spec_field_order int_to_string oak_chair) oak_chair_summary"
proof -
  have pieces: "spec_field_order int_to_string oak_chair =
     [''Made in USA'', ''chairs,oak'', ''Rated 5 on 2024-01-01: sturdy'',
      ''Oak Chair A solid dining chair from the brand Acme'',
      ''At full price it costs: $120 USD,'' @ newline @ ''     Onsale it costs 90 USD'',
      ''limited edition'']"
    by (simp add: spec_field_order_def provenance_def joined_categories_def rendered_reviews_def
                  rendered_review_def core_description_def price_pair_def oak_chair_def
                  decimal_examples)
  have "\<not> in_order (spec_field_order int_to_string oak_chair) oak_chair_summary"
    unfolding pieces by (simp add: oak_chair_summary_def newline_def starts_with_def)
  moreover have "\<not> starts_with oak_chair_summary (provenance oak_chair)"
    by (simp add: provenance_def oak_chair_def oak_chair_summary_def starts_with_def)
  ultimately show ?thesis by (simp add: oak_chair_compiled)
qed

text \<open>The six sentences of the Oak Chair record occur in its summary in the code's order.\<close>

theorem createItemSummary_field_order_witness:
  "in_order (code_field_order int_to_string oak_chair) oak_chair_summary"
  using createItemSummary_field_order [of int_to_string oak_chair "()"]
  by (simp add: oak_chair_compiled)

end
